theory Spec2Isabelle
  imports Complex_Main
begin

section \<open>The SHO initial-guess estimator of \<^verbatim>\<open>examples/plot_process.py\<close>\<close>

text \<open>
  The two static numeric methods of class \<^verbatim>\<open>ShoGuess\<close> (\<^verbatim>\<open>sho_function\<close>,
  \<^verbatim>\<open>_unit_function\<close>) and the fallback \<^verbatim>\<open>sho_fast_guess\<close> are embedded as HOL
  functions.

  Numbers. A \<^verbatim>\<open>float64\<close> is a \<^typ>\<open>real\<close> and a \<^verbatim>\<open>complex128\<close> a \<^typ>\<open>complex\<close>:
  arithmetic is exact, there is no rounding, overflow or signed zero. numpy does not
  raise on a floating-point division by zero, it goes on with \<^verbatim>\<open>inf\<close> or \<^verbatim>\<open>nan\<close>;
  HOL's \<open>x / 0 = 0\<close> is neither. Every division of the source whose divisor can be
  zero is therefore written with \<open>fdiv\<close> or \<open>cdiv\<close>, which return \<open>None\<close> there, and a
  run that meets such a division ends in the result \<open>NonFinite\<close>: the call returns
  (no exception), but the returned numbers are not followed by this model.

  Exceptions. Python's \<^verbatim>\<open>IndexError\<close> (an index outside a sequence) and numpy's
  \<^verbatim>\<open>ValueError\<close> (operands that cannot be broadcast together) are values of
  \<open>py_error\<close>, and a function that can raise returns \<open>py_error + 'a\<close>.
\<close>

subsection \<open>Arrays, errors and the numpy primitives used by the source\<close>

datatype py_error = IndexError | ValueError

text \<open>A one-dimensional numpy array is either of dtype float64 or of dtype complex128.\<close>

datatype ndarray = FloatArray "real list" | ComplexArray "complex list"

datatype scalar = FloatVal real | ComplexVal complex

datatype result = Finite ndarray | NonFinite

definition getitem :: "'a list \<Rightarrow> nat \<Rightarrow> py_error + 'a" where
  "getitem xs i = (if i < length xs then Inr (xs ! i) else Inl IndexError)"

text \<open>Sequencing of calls that can raise: the first exception ends the run.\<close>

definition bind_err :: "py_error + 'a \<Rightarrow> ('a \<Rightarrow> py_error + 'b) \<Rightarrow> py_error + 'b" where
  "bind_err m f = (case m of Inl e \<Rightarrow> Inl e | Inr x \<Rightarrow> f x)"

definition fdiv :: "real \<Rightarrow> real \<Rightarrow> real option" where
  "fdiv x y = (if y = 0 then None else Some (x / y))"

definition cdiv :: "complex \<Rightarrow> complex \<Rightarrow> complex option" where
  "cdiv x y = (if y = 0 then None else Some (x / y))"

text \<open>\<^verbatim>\<open>np.sqrt\<close> of a negative float is \<^verbatim>\<open>nan\<close>, again without an exception.\<close>

definition fsqrt :: "real \<Rightarrow> real option" where
  "fsqrt x = (if x < 0 then None else Some (sqrt x))"

text \<open>\<^verbatim>\<open>np.arctan2(y, x)\<close>: the angle of the point \<open>(x, y)\<close>, in \<open>(-\<pi>, \<pi>]\<close>.\<close>

definition arctan2 :: "real \<Rightarrow> real \<Rightarrow> real" where
  "arctan2 y x =
     (if 0 < x then arctan (y / x)
      else if x < 0 then (if 0 \<le> y then arctan (y / x) + pi else arctan (y / x) - pi)
      else if 0 < y then pi / 2
      else if y < 0 then - (pi / 2)
      else 0)"

text \<open>\<^verbatim>\<open>np.angle(z)\<close> is \<^verbatim>\<open>arctan2(z.imag, z.real)\<close>; a float has imaginary part 0.\<close>

fun np_angle :: "scalar \<Rightarrow> real" where
  "np_angle (FloatVal x) = arctan2 0 x"
| "np_angle (ComplexVal z) = arctan2 (Im z) (Re z)"

fun np_abs :: "ndarray \<Rightarrow> real list" where
  "np_abs (FloatArray xs) = map abs xs"
| "np_abs (ComplexArray zs) = map cmod zs"

fun np_len :: "ndarray \<Rightarrow> nat" where
  "np_len (FloatArray xs) = length xs"
| "np_len (ComplexArray zs) = length zs"

fun np_getitem :: "ndarray \<Rightarrow> nat \<Rightarrow> py_error + scalar" where
  "np_getitem (FloatArray xs) i = map_sum id FloatVal (getitem xs i)"
| "np_getitem (ComplexArray zs) i = map_sum id ComplexVal (getitem zs i)"

text \<open>\<^verbatim>\<open>np.mean\<close>: the sum over the length; the mean of an empty array is \<^verbatim>\<open>nan\<close>.\<close>

definition np_mean :: "real list \<Rightarrow> real option" where
  "np_mean xs = fdiv (sum_list xs) (real (length xs))"

text \<open>\<^verbatim>\<open>np.std\<close> (population standard deviation, \<^verbatim>\<open>ddof = 0\<close>).\<close>

definition np_std :: "real list \<Rightarrow> real option" where
  "np_std xs =
     Option.bind (np_mean xs)
       (\<lambda>m. map_option sqrt (np_mean (map (\<lambda>x. (abs (x - m))\<^sup>2) xs)))"

text \<open>
  \<^verbatim>\<open>np.argsort\<close>: the indices that sort the keys in ascending order. Equal keys are
  taken in index order (a stable sort); numpy's default sort leaves their order open.
\<close>

definition argsort :: "real list \<Rightarrow> nat list" where
  "argsort ks = sort_key (\<lambda>i. ks ! i) [0..<length ks]"

text \<open>
  \<^verbatim>\<open>np.linspace(start, stop, num)\<close>: \<open>num\<close> evenly spaced points, both ends included.
\<close>

definition linspace :: "real \<Rightarrow> real \<Rightarrow> nat \<Rightarrow> real list" where
  "linspace start stop num =
     (if num = 1 then [start]
      else map (\<lambda>k. start + real k * ((stop - start) / real (num - 1))) [0..<num])"

text \<open>
  Elementwise subtraction of two one-dimensional arrays under numpy's broadcasting:
  equal lengths, or one operand of length 1; anything else raises \<^verbatim>\<open>ValueError\<close>.
\<close>

definition broadcastable :: "nat \<Rightarrow> nat \<Rightarrow> bool" where
  "broadcastable m n = (m = n \<or> m = 1 \<or> n = 1)"

definition broadcast_sub :: "('a::minus) list \<Rightarrow> 'a list \<Rightarrow> 'a list" where
  "broadcast_sub xs ys =
     (if length xs = length ys then map2 (-) xs ys
      else if length xs = 1 then map (\<lambda>y. hd xs - y) ys
      else map (\<lambda>x. x - hd ys) xs)"

text \<open>An array with a non-finite element is not followed: \<open>None\<close>.\<close>

definition all_finite :: "'a option list \<Rightarrow> 'a list option" where
  "all_finite xs = (if None \<in> set xs then None else Some (map the xs))"

subsection \<open>\<^verbatim>\<open>sho_function\<close> (lines 116-129)\<close>

text \<open>
  \<^verbatim>\<open>parms[0] * exp(1j * parms[3]) * parms[1] ** 2 /
     (w_vec ** 2 - 1j * w_vec * parms[1] / parms[2] - parms[1] ** 2)\<close>,
  evaluated as numpy does: array by array, the scalar operands broadcast. An element
  is \<open>None\<close> where numpy has divided by zero.
\<close>

definition sho_function :: "real list \<Rightarrow> real list \<Rightarrow> py_error + complex option list" where
  "sho_function parms w_vec =
     bind_err (getitem parms 0) (\<lambda>p0.
     bind_err (getitem parms 3) (\<lambda>p3.
     bind_err (getitem parms 1) (\<lambda>p1.
     bind_err (getitem parms 2) (\<lambda>p2.
        (let numer = complex_of_real p0 * exp (\<i> * complex_of_real p3) * (complex_of_real p1)\<^sup>2;
             w_sq = map (\<lambda>w. complex_of_real (w\<^sup>2)) w_vec;
             jw = map (\<lambda>w. \<i> * complex_of_real w) w_vec;
             jw_p1 = map (\<lambda>z. z * complex_of_real p1) jw;
             damp = map (\<lambda>z. cdiv z (complex_of_real p2)) jw_p1;
             diff1 = map2 (\<lambda>s t. map_option (\<lambda>u. s - u) t) w_sq damp;
             den = map (map_option (\<lambda>z. z - (complex_of_real p1)\<^sup>2)) diff1
         in Inr (map (\<lambda>dn. Option.bind dn (cdiv numer)) den))))))"

subsection \<open>\<^verbatim>\<open>sho_fast_guess\<close> (lines 220-241)\<close>

text \<open>
  \<^verbatim>\<open>np.array([np.mean(amp_vec) / qual_factor, w_vec[i_max], qual_factor,
              np.angle(resp_vec[i_max])])\<close> with \<^verbatim>\<open>i_max = int(len(resp_vec) / 2)\<close>.
  The array is complex as soon as \<^verbatim>\<open>w_vec[i_max]\<close> is. The two subscripts can raise;
  the mean of an empty array and the division by \<^verbatim>\<open>qual_factor\<close> can be non-finite.
\<close>

definition sho_fast_guess :: "ndarray \<Rightarrow> ndarray \<Rightarrow> real \<Rightarrow> py_error + result" where
  "sho_fast_guess resp_vec w_vec qual_factor =
     (let amp_vec = np_abs resp_vec;
          i_max = np_len resp_vec div 2
      in bind_err (np_getitem w_vec i_max) (\<lambda>f.
         bind_err (np_getitem resp_vec i_max) (\<lambda>r.
           (case Option.bind (np_mean amp_vec) (\<lambda>m. fdiv m qual_factor) of
              None \<Rightarrow> Inr NonFinite
            | Some amp \<Rightarrow>
                (case f of
                   FloatVal x \<Rightarrow> Inr (Finite (FloatArray [amp, x, qual_factor, np_angle r]))
                 | ComplexVal z \<Rightarrow>
                     Inr (Finite (ComplexArray [complex_of_real amp, z,
                            complex_of_real qual_factor, complex_of_real (np_angle r)])))))))"

subsection \<open>\<^verbatim>\<open>_unit_function\<close> (lines 131-218)\<close>

text \<open>The pairs \<open>(c1, c2)\<close> of the two nested \<^verbatim>\<open>range\<close> loops, in the order they run.\<close>

definition pair_indices :: "nat \<Rightarrow> (nat \<times> nat) list" where
  "pair_indices n = concat (map (\<lambda>c1. map (\<lambda>c2. (c1, c2)) [Suc c1..<n]) [0..<n])"

definition denom_of :: "real \<Rightarrow> real \<Rightarrow> real \<Rightarrow> real \<Rightarrow> real \<Rightarrow> real \<Rightarrow> real" where
  "denom_of w1 w2 X1 X2 Y1 Y2 =
     w1 * (X1\<^sup>2 - X1 * X2 + Y1 * (Y1 - Y2)) + w2 * (- X1 * X2 + X2\<^sup>2 - Y1 * Y2 + Y2\<^sup>2)"

definition coeff_a :: "real \<Rightarrow> real \<Rightarrow> real \<Rightarrow> real \<Rightarrow> real \<Rightarrow> real \<Rightarrow> real" where
  "coeff_a w1 w2 X1 X2 Y1 Y2 =
     ((w1\<^sup>2 - w2\<^sup>2) * (w1 * X2 * (X1\<^sup>2 + Y1\<^sup>2) - w2 * X1 * (X2\<^sup>2 + Y2\<^sup>2)))
       / denom_of w1 w2 X1 X2 Y1 Y2"

definition coeff_b :: "real \<Rightarrow> real \<Rightarrow> real \<Rightarrow> real \<Rightarrow> real \<Rightarrow> real \<Rightarrow> real" where
  "coeff_b w1 w2 X1 X2 Y1 Y2 =
     ((w1\<^sup>2 - w2\<^sup>2) * (w1 * Y2 * (X1\<^sup>2 + Y1\<^sup>2) - w2 * Y1 * (X2\<^sup>2 + Y2\<^sup>2)))
       / denom_of w1 w2 X1 X2 Y1 Y2"

definition coeff_c :: "real \<Rightarrow> real \<Rightarrow> real \<Rightarrow> real \<Rightarrow> real \<Rightarrow> real \<Rightarrow> real" where
  "coeff_c w1 w2 X1 X2 Y1 Y2 =
     ((w1\<^sup>2 - w2\<^sup>2) * (X2 * Y1 - X1 * Y2)) / denom_of w1 w2 X1 X2 Y1 Y2"

definition coeff_d :: "real \<Rightarrow> real \<Rightarrow> real \<Rightarrow> real \<Rightarrow> real \<Rightarrow> real \<Rightarrow> real" where
  "coeff_d w1 w2 X1 X2 Y1 Y2 =
     (w1 ^ 3 * (X1\<^sup>2 + Y1\<^sup>2)
        - w1\<^sup>2 * w2 * (X1 * X2 + Y1 * Y2)
        - w1 * w2\<^sup>2 * (X1 * X2 + Y1 * Y2)
        + w2 ^ 3 * (X2\<^sup>2 + Y2\<^sup>2)) / denom_of w1 w2 X1 X2 Y1 Y2"

text \<open>
  The fit parameters of the coefficients \<open>(a, b, c, d)\<close> (lines 181-184 and 203-206):
  \<^verbatim>\<open>A_fit = abs(a + 1j * b) / d\<close>, \<^verbatim>\<open>w0_fit = sqrt(d)\<close>, \<^verbatim>\<open>Q_fit = -sqrt(d) / c\<close>,
  \<^verbatim>\<open>phi_fit = arctan2(-b, -a)\<close>. \<open>None\<close> when \<open>d\<close> or \<open>c\<close> is zero or \<open>d\<close> is negative.
\<close>

definition fit_parms :: "real \<Rightarrow> real \<Rightarrow> real \<Rightarrow> real \<Rightarrow> (real \<times> real \<times> real \<times> real) option" where
  "fit_parms a b c d =
     Option.bind (fdiv (cmod (complex_of_real a + \<i> * complex_of_real b)) d) (\<lambda>A_fit.
     Option.bind (fsqrt d) (\<lambda>w0_fit.
     Option.bind (fdiv (- w0_fit) c) (\<lambda>Q_fit.
       Some (A_fit, w0_fit, Q_fit, arctan2 (- b) (- a)))))"

text \<open>
  The modelled response of lines 186-187 and 208:
  \<^verbatim>\<open>A_fit * w0_fit ** 2 * exp(1j * phi_fit) /
     (w_vec ** 2 - 1j * w_vec * w0_fit / Q_fit - w0_fit ** 2)\<close>.
\<close>

definition H_fit :: "real \<Rightarrow> real \<Rightarrow> real \<Rightarrow> real \<Rightarrow> real list \<Rightarrow> complex option list" where
  "H_fit A_fit w0_fit Q_fit phi_fit w_vec =
     (let numer = complex_of_real A_fit * (complex_of_real w0_fit)\<^sup>2
                    * exp (\<i> * complex_of_real phi_fit)
      in map (\<lambda>w. Option.bind
                    (cdiv (\<i> * complex_of_real w * complex_of_real w0_fit) (complex_of_real Q_fit))
                    (\<lambda>t. cdiv numer (complex_of_real (w\<^sup>2) - t - (complex_of_real w0_fit)\<^sup>2)))
           w_vec)"

text \<open>
  The error score of lines 189-191:
  \<^verbatim>\<open>sum((real(H_fit) - real(resp_vec)) ** 2) + sum((imag(H_fit) - imag(resp_vec)) ** 2)\<close>.
  The subtraction raises when the two arrays cannot be broadcast together.
\<close>

definition sq_error :: "complex option list \<Rightarrow> complex list \<Rightarrow> py_error + real option" where
  "sq_error H resp_vec =
     (if broadcastable (length H) (length resp_vec) then
        (case all_finite H of None \<Rightarrow> Inr None
         | Some Hs \<Rightarrow>
             Inr (Some (sum_list (map (\<lambda>x. x\<^sup>2) (broadcast_sub (map Re Hs) (map Re resp_vec)))
                      + sum_list (map (\<lambda>x. x\<^sup>2) (broadcast_sub (map Im Hs) (map Im resp_vec))))))
      else Inl ValueError)"

text \<open>
  One pass of the loop body (lines 161-191) for the pair \<open>(c1, c2)\<close>: the subscripts
  can raise; a pair whose \<open>denom\<close> or whose \<open>d\<close> is not positive adds nothing; any
  other pair adds its row \<open>(a, b, c, d)\<close> to \<^verbatim>\<open>a_mat\<close> and its error score to
  \<^verbatim>\<open>e_vec\<close>. The two arrays grow together, so they are kept as one list of
  \<open>(row, score)\<close> pairs; a score is \<open>None\<close> when it is not finite.
\<close>

type_synonym coeffs = "real \<times> real \<times> real \<times> real"

type_synonym cand = "coeffs \<times> real option"

definition fit_error :: "coeffs \<Rightarrow> real list \<Rightarrow> complex list \<Rightarrow> py_error + real option" where
  "fit_error abcd w_vec resp_vec =
     (case abcd of (a, b, c, d) \<Rightarrow>
        (case fit_parms a b c d of
           None \<Rightarrow> if broadcastable (length w_vec) (length resp_vec) then Inr None
                   else Inl ValueError
         | Some (A_fit, w0_fit, Q_fit, phi_fit) \<Rightarrow>
             sq_error (H_fit A_fit w0_fit Q_fit phi_fit w_vec) resp_vec))"

definition pair_candidate ::
  "complex list \<Rightarrow> real list \<Rightarrow> nat list \<Rightarrow> nat \<times> nat \<Rightarrow> py_error + cand option" where
  "pair_candidate resp_vec w_vec ii p =
     (case p of (c1, c2) \<Rightarrow>
      bind_err (getitem ii c1) (\<lambda>i1.
      bind_err (getitem w_vec i1) (\<lambda>w1.
      bind_err (getitem ii c2) (\<lambda>i2.
      bind_err (getitem w_vec i2) (\<lambda>w2.
      bind_err (getitem resp_vec i1) (\<lambda>r1.
      bind_err (getitem resp_vec i2) (\<lambda>r2.
        (let X1 = Re r1; X2 = Re r2; Y1 = Im r1; Y2 = Im r2;
             denom = denom_of w1 w2 X1 X2 Y1 Y2
         in if 0 < denom then
              (let a = coeff_a w1 w2 X1 X2 Y1 Y2;
                   b = coeff_b w1 w2 X1 X2 Y1 Y2;
                   c = coeff_c w1 w2 X1 X2 Y1 Y2;
                   d = coeff_d w1 w2 X1 X2 Y1 Y2
               in if 0 < d then
                    bind_err (fit_error (a, b, c, d) w_vec resp_vec)
                      (\<lambda>ev. Inr (Some ((a, b, c, d), ev)))
                  else Inr None)
            else Inr None))))))))"

fun candidates_loop ::
  "complex list \<Rightarrow> real list \<Rightarrow> nat list \<Rightarrow> (nat \<times> nat) list \<Rightarrow> cand list
     \<Rightarrow> py_error + cand list" where
  "candidates_loop resp_vec w_vec ii [] acc = Inr acc"
| "candidates_loop resp_vec w_vec ii (p # ps) acc =
     (case pair_candidate resp_vec w_vec ii p of
        Inl e \<Rightarrow> Inl e
      | Inr None \<Rightarrow> candidates_loop resp_vec w_vec ii ps acc
      | Inr (Some cd) \<Rightarrow> candidates_loop resp_vec w_vec ii ps (acc @ [cd]))"

text \<open>
  Lines 195-201: \<^verbatim>\<open>weight_vec = (1 / e_vec) ** 4\<close> and the weighted averages
  \<^verbatim>\<open>sum(weight_vec * a_mat[:, k]) / w_sum\<close>.
\<close>

definition weights :: "real option list \<Rightarrow> real list option" where
  "weights e_vec =
     Option.bind (all_finite e_vec)
       (\<lambda>es. all_finite (map (\<lambda>e. map_option (\<lambda>q. q ^ 4) (fdiv 1 e)) es))"

definition weighted_mean :: "real list \<Rightarrow> real list \<Rightarrow> real option" where
  "weighted_mean weight_vec col = fdiv (sum_list (map2 (*) weight_vec col)) (sum_list weight_vec)"

definition weighted_coeffs :: "cand list \<Rightarrow> coeffs option" where
  "weighted_coeffs cands =
     Option.bind (weights (map snd cands)) (\<lambda>weight_vec.
     Option.bind (weighted_mean weight_vec (map (\<lambda>((a, b, c, d), e). a) cands)) (\<lambda>a_w.
     Option.bind (weighted_mean weight_vec (map (\<lambda>((a, b, c, d), e). b) cands)) (\<lambda>b_w.
     Option.bind (weighted_mean weight_vec (map (\<lambda>((a, b, c, d), e). c) cands)) (\<lambda>c_w.
     Option.bind (weighted_mean weight_vec (map (\<lambda>((a, b, c, d), e). d) cands)) (\<lambda>d_w.
       Some (a_w, b_w, c_w, d_w))))))"

text \<open>
  The test of line 210, \<^verbatim>\<open>np.std(abs(resp_vec)) / np.std(abs(resp_vec - H_fit)) < 1.2
  or w0_fit < np.min(w_vec) or w0_fit > np.max(w_vec)\<close>. The quotient is only compared,
  so its division is followed through a zero divisor: a standard deviation is a square
  root and never negative, so over the divisor 0 the quotient is \<^verbatim>\<open>inf\<close> or \<^verbatim>\<open>nan\<close>, and
  neither \<^verbatim>\<open>inf < 1.2\<close> nor \<^verbatim>\<open>nan < 1.2\<close> holds. \<open>None\<close> when a standard deviation is
  itself not finite (that of an empty array).
\<close>

definition implausible :: "complex list \<Rightarrow> real list \<Rightarrow> complex list \<Rightarrow> real \<Rightarrow> bool option" where
  "implausible resp_vec w_vec Hs w0_fit =
     Option.bind (np_std (map cmod resp_vec)) (\<lambda>s1.
     Option.bind (np_std (map cmod (broadcast_sub resp_vec Hs))) (\<lambda>s2.
       Some ((s2 \<noteq> 0 \<and> s1 / s2 < 12 / 10)
             \<or> w0_fit < Min (set w_vec) \<or> Max (set w_vec) < w0_fit)))"

text \<open>
  Lines 193-214, entered when \<^verbatim>\<open>a_mat.size > 0\<close>. Line 212 calls
  \<^verbatim>\<open>ShoGuess.sho_fast_guess(w_vec, resp_vec)\<close>: the frequency vector is passed as the
  first argument and the response as the second.

  A candidate exists only after two subscripts of each array at two different
  indices and a broadcast of one onto the other have succeeded, so both arrays have
  the same length, at least 2, whenever this part runs (lemma
  \<open>candidates_loop_lengths\<close> below); the two guards in front repeat the exceptions numpy
  raises for other arguments.
\<close>

definition weighted_guess :: "complex list \<Rightarrow> real list \<Rightarrow> cand list \<Rightarrow> py_error + result" where
  "weighted_guess resp_vec w_vec cands =
     (if broadcastable (length resp_vec) (length w_vec) \<and> w_vec \<noteq> [] then
        (case weighted_coeffs cands of None \<Rightarrow> Inr NonFinite
         | Some (a_w, b_w, c_w, d_w) \<Rightarrow>
             (case fit_parms a_w b_w c_w d_w of None \<Rightarrow> Inr NonFinite
              | Some (A_fit, w0_fit, Q_fit, phi_fit) \<Rightarrow>
                  (case all_finite (H_fit A_fit w0_fit Q_fit phi_fit w_vec) of
                     None \<Rightarrow> Inr NonFinite
                   | Some Hs \<Rightarrow>
                       (case implausible resp_vec w_vec Hs w0_fit of None \<Rightarrow> Inr NonFinite
                        | Some True \<Rightarrow>
                            sho_fast_guess (FloatArray w_vec) (ComplexArray resp_vec) 200
                        | Some False \<Rightarrow>
                            Inr (Finite (FloatArray [A_fit, w0_fit, Q_fit, phi_fit]))))))
      else Inl ValueError)"

text \<open>
  \<^verbatim>\<open>_unit_function(resp_vec, w_vec=None, num_points=5)\<close>. \<^verbatim>\<open>range\<close> of a negative
  \<^verbatim>\<open>num_points\<close> is empty, as \<open>nat\<close> of a negative integer is 0. Line 216 calls
  \<^verbatim>\<open>ShoGuess.sho_fast_guess(resp_vec, w_vec)\<close>.
\<close>

definition unit_function :: "complex list \<Rightarrow> real list option \<Rightarrow> int \<Rightarrow> py_error + result" where
  "unit_function resp_vec w_opt num_points =
     (let w_vec = (case w_opt of None \<Rightarrow> linspace 300000 350000 (length resp_vec)
                   | Some w \<Rightarrow> w);
          ii = rev (argsort (map cmod resp_vec))
      in case candidates_loop resp_vec w_vec ii (pair_indices (nat num_points)) [] of
           Inl e \<Rightarrow> Inl e
         | Inr cands \<Rightarrow>
             if cands \<noteq> [] then weighted_guess resp_vec w_vec cands
             else sho_fast_guess (ComplexArray resp_vec) (FloatArray w_vec) 200)"

subsection \<open>The invariant of a returned parameter array\<close>

text \<open>
  A returned array has four entries \<open>(amplitude, resonance frequency, quality factor,
  phase)\<close>; its amplitude is real and not negative, its phase real and in \<open>(-\<pi>, \<pi>]\<close>.
\<close>

fun params_ok :: "ndarray \<Rightarrow> bool" where
  "params_ok (FloatArray xs) =
     (length xs = 4 \<and> 0 \<le> xs ! 0 \<and> - pi < xs ! 3 \<and> xs ! 3 \<le> pi)"
| "params_ok (ComplexArray zs) =
     (length zs = 4 \<and> Im (zs ! 0) = 0 \<and> 0 \<le> Re (zs ! 0)
        \<and> Im (zs ! 3) = 0 \<and> - pi < Re (zs ! 3) \<and> Re (zs ! 3) \<le> pi)"

section \<open>Properties\<close>

subsection \<open>\<open>arctan2\<close> and the modelled response in closed form\<close>

lemma arctan2_bounds: "- pi < arctan2 y x \<and> arctan2 y x \<le> pi"
proof -
  have b: "- (pi / 2) < arctan (y / x)" "arctan (y / x) < pi / 2"
    using arctan_lbound arctan_ubound by auto
  have p: "0 < pi" by simp
  consider "0 < x" | "x < 0" "0 \<le> y" | "x < 0" "y < 0" | "x = 0"
    by linarith
  then show ?thesis
  proof cases
    case 1
    then show ?thesis using b p by (simp add: arctan2_def)
  next
    case 2
    then have "y / x \<le> 0" by (simp add: divide_nonneg_neg)
    then have "arctan (y / x) \<le> 0" using arctan_le_zero_iff by blast
    then show ?thesis using 2 b p by (simp add: arctan2_def)
  next
    case 3
    then have "0 < y / x" by (simp add: divide_neg_neg)
    then have "0 < arctan (y / x)" using zero_less_arctan_iff by blast
    then show ?thesis using 3 b p by (simp add: arctan2_def)
  next
    case 4
    have "arctan2 y x = pi / 2 \<or> arctan2 y x = - (pi / 2) \<or> arctan2 y x = 0"
      using 4 by (simp add: arctan2_def)
    then show ?thesis using p by linarith
  qed
qed

lemma cis_arctan_pos:
  assumes "0 < x"
  shows "cis (arctan (y / x)) * complex_of_real (sqrt (x\<^sup>2 + y\<^sup>2)) = Complex x y"
proof -
  have s: "sqrt (1 + (y / x)\<^sup>2) = sqrt (x\<^sup>2 + y\<^sup>2) / x"
  proof -
    have "1 + (y / x)\<^sup>2 = (x\<^sup>2 + y\<^sup>2) / x\<^sup>2"
      using assms by (simp add: field_simps power2_eq_square)
    then show ?thesis using assms by (simp add: real_sqrt_divide)
  qed
  have pos: "0 < sqrt (x\<^sup>2 + y\<^sup>2)"
    using assms by (simp add: sum_power2_gt_zero_iff)
  show ?thesis
    using assms pos
    by (simp add: complex_eq_iff cos_arctan sin_arctan s)
qed


lemma cis_arctan2: "cis (arctan2 y x) * complex_of_real (cmod (Complex x y)) = Complex x y"
proof -
  consider "0 < x" | "x < 0" | "x = 0" "0 < y" | "x = 0" "y < 0" | "x = 0" "y = 0"
    by linarith
  then show ?thesis
  proof cases
    case 1
    then show ?thesis using cis_arctan_pos [of x y] by (simp add: arctan2_def cmod_def)
  next
    case 2
    then have "0 < - x" by simp
    from cis_arctan_pos [OF this, of "- y"]
    have n: "cis (arctan (y / x)) * complex_of_real (sqrt (x\<^sup>2 + y\<^sup>2)) = - Complex x y"
      by (simp add: complex_eq_iff)
    have "cis (arctan2 y x) = - cis (arctan (y / x))"
      using 2 by (simp add: arctan2_def complex_eq_iff)
    then show ?thesis using n by (simp add: cmod_def)
  next
    case 3
    then show ?thesis by (simp add: arctan2_def complex_eq_iff cmod_def)
  next
    case 4
    then show ?thesis by (simp add: arctan2_def complex_eq_iff cmod_def)
  next
    case 5
    then show ?thesis by (simp add: arctan2_def complex_eq_iff)
  qed
qed

lemma fit_parms_Some:
  assumes "0 < d" "c \<noteq> 0"
  shows "fit_parms a b c d = Some (cmod (Complex a b) / d, sqrt d, - sqrt d / c, arctan2 (- b) (- a))"
  using assms by (simp add: fit_parms_def fdiv_def fsqrt_def Complex_eq)

lemma fit_parms_None: "d \<le> 0 \<or> c = 0 \<Longrightarrow> fit_parms a b c d = None"
  by (auto simp add: fit_parms_def fdiv_def fsqrt_def)

lemma H_fit_numer:
  assumes "0 < d"
  shows "complex_of_real (cmod (Complex a b) / d) * (complex_of_real (sqrt d))\<^sup>2
           * exp (\<i> * complex_of_real (arctan2 (- b) (- a))) = - Complex a b"
proof -
  have "(complex_of_real (sqrt d))\<^sup>2 = complex_of_real d"
    using assms by (simp flip: of_real_power)
  then have "complex_of_real (cmod (Complex a b) / d) * (complex_of_real (sqrt d))\<^sup>2
               = complex_of_real (cmod (Complex a b))"
    using assms by simp
  moreover have "cis (arctan2 (- b) (- a)) * complex_of_real (cmod (Complex (- a) (- b)))
                   = Complex (- a) (- b)"
    by (rule cis_arctan2)
  moreover have "cmod (Complex (- a) (- b)) = cmod (Complex a b)"
    by (simp add: cmod_def)
  moreover have "Complex (- a) (- b) = - Complex a b"
    by (simp add: complex_eq_iff)
  ultimately show ?thesis
    by (simp add: cis_conv_exp mult.commute)
qed

lemma H_fit_den:
  assumes "0 < d" "c \<noteq> 0"
  shows "cdiv (\<i> * complex_of_real w * complex_of_real (sqrt d)) (complex_of_real (- sqrt d / c))
           = Some (- (\<i> * complex_of_real (c * w)))"
  using assms by (simp add: cdiv_def field_simps)

lemma den_nonzero:
  assumes "0 < d" "c \<noteq> 0"
  shows "Complex (d - w\<^sup>2) (- (c * w)) \<noteq> 0"
proof
  assume z: "Complex (d - w\<^sup>2) (- (c * w)) = 0"
  then have "c * w = 0" "d - w\<^sup>2 = 0" by (simp_all add: complex_eq_iff)
  with assms show False by simp
qed

lemma H_fit_closed:
  assumes "0 < d" "c \<noteq> 0"
  shows "H_fit (cmod (Complex a b) / d) (sqrt d) (- sqrt d / c) (arctan2 (- b) (- a)) w_vec
           = map (\<lambda>w. Some (Complex a b / Complex (d - w\<^sup>2) (- (c * w)))) w_vec"
proof -
  have sq: "(complex_of_real (sqrt d))\<^sup>2 = complex_of_real d"
    using assms by (simp flip: of_real_power)
  have "Option.bind
          (cdiv (\<i> * complex_of_real w * complex_of_real (sqrt d)) (complex_of_real (- sqrt d / c)))
          (\<lambda>t. cdiv (- Complex a b) (complex_of_real (w\<^sup>2) - t - (complex_of_real (sqrt d))\<^sup>2))
        = Some (Complex a b / Complex (d - w\<^sup>2) (- (c * w)))" for w
  proof -
    let ?D = "Complex (d - w\<^sup>2) (- (c * w))"
    have e: "complex_of_real (w\<^sup>2) - - (\<i> * complex_of_real (c * w)) - complex_of_real d = - ?D"
      by (simp add: complex_eq_iff)
    have nz: "- ?D \<noteq> 0"
      using den_nonzero [OF assms, of w] by simp
    have "Option.bind
            (cdiv (\<i> * complex_of_real w * complex_of_real (sqrt d)) (complex_of_real (- sqrt d / c)))
            (\<lambda>t. cdiv (- Complex a b) (complex_of_real (w\<^sup>2) - t - (complex_of_real (sqrt d))\<^sup>2))
          = cdiv (- Complex a b) (- ?D)"
      by (simp only: H_fit_den [OF assms] sq e Option.bind.simps)
    also have "\<dots> = Some (- Complex a b / - ?D)"
      using nz unfolding cdiv_def by (simp only: if_False)
    also have "- Complex a b / - ?D = Complex a b / ?D"
      by simp
    finally show ?thesis .
  qed
  then show ?thesis
    unfolding H_fit_def Let_def H_fit_numer [OF assms(1)] by simp
qed

subsection \<open>\<^verbatim>\<open>sho_function\<close>\<close>

lemma sho_function_eval:
  "sho_function [A, f0, Q, phi] w_vec =
     Inr (map (\<lambda>f. if Q = 0 \<or> (complex_of_real f)\<^sup>2
                              - \<i> * complex_of_real f * complex_of_real f0 / complex_of_real Q
                              - (complex_of_real f0)\<^sup>2 = 0
                     then None
                     else Some (complex_of_real A * exp (\<i> * complex_of_real phi)
                                  * (complex_of_real f0)\<^sup>2
                          / ((complex_of_real f)\<^sup>2
                              - \<i> * complex_of_real f * complex_of_real f0 / complex_of_real Q
                              - (complex_of_real f0)\<^sup>2)))
           w_vec)"
  by (simp add: sho_function_def getitem_def bind_err_def cdiv_def zip_map_map zip_same_conv_map)

text \<open>
  Claim C6. For a parameter list \<open>[A, f0, Q, \<phi>]\<close> and any frequency vector,
  \<open>sho_function\<close> raises nothing and returns, frequency by frequency,
  \<open>A \<cdot> e\<^sup>i\<^sup>\<phi> \<cdot> f0\<^sup>2 / (f\<^sup>2 - i \<cdot> f \<cdot> f0 / Q - f0\<^sup>2)\<close>; the only exceptions are the
  frequencies at which that quotient does not exist (\<open>Q = 0\<close>, or a denominator that
  is 0), where numpy's value is not finite.
\<close>

theorem sho_function_closed_form:
  "sho_function [A, f0, Q, phi] w_vec =
     Inr (map (\<lambda>f. if Q = 0 \<or> (complex_of_real f)\<^sup>2
                              - \<i> * complex_of_real f * complex_of_real f0 / complex_of_real Q
                              - (complex_of_real f0)\<^sup>2 = 0
                     then None
                     else Some (complex_of_real A * exp (\<i> * complex_of_real phi)
                                  * (complex_of_real f0)\<^sup>2
                          / ((complex_of_real f)\<^sup>2
                              - \<i> * complex_of_real f * complex_of_real f0 / complex_of_real Q
                              - (complex_of_real f0)\<^sup>2)))
           w_vec)"
  by (rule sho_function_eval)

subsection \<open>The default frequency vector\<close>

text \<open>
  Claim C9. With \<^verbatim>\<open>w_vec=None\<close> the function runs exactly as on
  \<^verbatim>\<open>np.linspace(300E+3, 350E+3, resp_vec.size)\<close>, a vector with as many points as the
  response has.
\<close>

theorem unit_function_default_freq:
  "unit_function resp_vec None num_points =
     unit_function resp_vec (Some (linspace 300000 350000 (length resp_vec))) num_points
   \<and> length (linspace 300000 350000 (length resp_vec)) = length resp_vec"
  by (simp add: unit_function_def linspace_def)


subsection \<open>The sorted indices and the pairs of the loop\<close>

lemma argsort_length: "length (argsort ks) = length ks"
  by (simp add: argsort_def)

lemma argsort_set: "set (argsort ks) = {0..<length ks}"
  by (simp add: argsort_def)

lemma argsort_distinct: "distinct (argsort ks)"
  by (simp add: argsort_def)

lemma argsort_sorted: "sorted (map (\<lambda>i. ks ! i) (argsort ks))"
  by (simp add: argsort_def)

lemma pair_indices_set: "set (pair_indices n) = {(c1, c2). c1 < c2 \<and> c2 < n}"
proof (rule set_eqI)
  fix p :: "nat \<times> nat"
  obtain c1 c2 where p: "p = (c1, c2)" by (cases p)
  have "(c1, c2) \<in> set (pair_indices n) \<longleftrightarrow> c1 < n \<and> Suc c1 \<le> c2 \<and> c2 < n"
    by (fastforce simp add: pair_indices_def image_iff)
  then show "p \<in> set (pair_indices n) \<longleftrightarrow> p \<in> {(c1, c2). c1 < c2 \<and> c2 < n}"
    using p by auto
qed

lemma pair_indices_distinct: "distinct (pair_indices n)"
  unfolding pair_indices_def
proof (rule distinct_concat)
  show "distinct (map (\<lambda>c1. map (Pair c1) [Suc c1..<n]) [0..<n])"
  proof (simp add: distinct_map, rule inj_onI)
    fix x y
    assume "x \<in> {0..<n}" "y \<in> {0..<n}" "map (Pair x) [Suc x..<n] = map (Pair y) [Suc y..<n]"
    then have "x < n" "y < n" "length (map (Pair x) [Suc x..<n]) = length (map (Pair y) [Suc y..<n])"
      by simp_all
    then show "x = y" by simp
  qed
next
  fix ys
  assume "ys \<in> set (map (\<lambda>c1. map (Pair c1) [Suc c1..<n]) [0..<n])"
  then show "distinct ys" by (auto simp add: distinct_map inj_on_def)
next
  fix ys zs
  assume "ys \<in> set (map (\<lambda>c1. map (Pair c1) [Suc c1..<n]) [0..<n])"
    "zs \<in> set (map (\<lambda>c1. map (Pair c1) [Suc c1..<n]) [0..<n])" "ys \<noteq> zs"
  then show "set ys \<inter> set zs = {}" by auto
qed

lemma length_pair_indices_aux:
  "length (concat (map (\<lambda>c1. map (\<lambda>c2. (c1, c2)) [Suc c1..<n]) [0..<m])) = (\<Sum>c1<m. n - Suc c1)"
  by (induction m) simp_all

lemma length_pair_indices: "length (pair_indices n) = n * (n - 1) div 2"
proof -
  have "(\<Sum>c1<n. n - Suc c1) = (\<Sum>i<n. i)"
    by (rule sum.nat_diff_reindex)
  also have "\<dots> = \<Sum>{0..<n}"
    by (simp add: lessThan_atLeast0)
  also have "\<dots> = n * (n - 1) div 2"
    by (simp add: Sum_Ico_nat)
  finally show ?thesis
    unfolding pair_indices_def length_pair_indices_aux .
qed



lemma pair_indices_2: "pair_indices 2 = [(0, Suc 0)]"
  by (simp add: pair_indices_def upt_rec)

lemma unit_function_two_points:
  assumes "rev (argsort (map cmod resp_vec)) = ii"
    and "pair_candidate resp_vec w_vec ii (0, Suc 0) = Inr r"
  shows "unit_function resp_vec (Some w_vec) 2 =
           (case r of None \<Rightarrow> sho_fast_guess (ComplexArray resp_vec) (FloatArray w_vec) 200
            | Some cd \<Rightarrow> weighted_guess resp_vec w_vec [cd])"
  using assms by (cases r) (simp_all add: unit_function_def pair_indices_2)


subsection \<open>The loop body and the loop\<close>

lemma length_H_fit: "length (H_fit A w0 Q phi w_vec) = length w_vec"
  by (simp add: H_fit_def Let_def)

lemma fit_error_Inr:
  assumes "broadcastable (length w_vec) (length resp_vec)"
  shows "\<exists>ev. fit_error abcd w_vec resp_vec = Inr ev"
proof -
  obtain a b c d where abcd: "abcd = (a, b, c, d)" by (cases abcd)
  show ?thesis
  proof (cases "fit_parms a b c d")
    case None
    then show ?thesis using assms abcd by (simp add: fit_error_def)
  next
    case (Some q)
    obtain A w0 Q phi where q: "q = (A, w0, Q, phi)" by (cases q)
    show ?thesis
      using assms abcd Some q
      by (simp add: fit_error_def sq_error_def length_H_fit split: option.split)
  qed
qed

lemma fit_error_Inl:
  assumes "\<not> broadcastable (length w_vec) (length resp_vec)"
  shows "fit_error abcd w_vec resp_vec = Inl ValueError"
proof -
  obtain a b c d where abcd: "abcd = (a, b, c, d)" by (cases abcd)
  show ?thesis
  proof (cases "fit_parms a b c d")
    case None
    then show ?thesis using assms abcd by (simp add: fit_error_def)
  next
    case (Some q)
    obtain A w0 Q phi where q: "q = (A, w0, Q, phi)" by (cases q)
    show ?thesis
      using assms abcd Some q
      by (simp add: fit_error_def sq_error_def length_H_fit)
  qed
qed

text \<open>The loop body when all six subscripts are in range.\<close>

lemma pair_candidate_in_range:
  assumes "c1 < length ii" "c2 < length ii"
    and "ii ! c1 < length w_vec" "ii ! c2 < length w_vec"
    and "ii ! c1 < length resp_vec" "ii ! c2 < length resp_vec"
  shows "pair_candidate resp_vec w_vec ii (c1, c2) =
     (let w1 = w_vec ! (ii ! c1); w2 = w_vec ! (ii ! c2);
          X1 = Re (resp_vec ! (ii ! c1)); X2 = Re (resp_vec ! (ii ! c2));
          Y1 = Im (resp_vec ! (ii ! c1)); Y2 = Im (resp_vec ! (ii ! c2))
      in if 0 < denom_of w1 w2 X1 X2 Y1 Y2 \<and> 0 < coeff_d w1 w2 X1 X2 Y1 Y2 then
           bind_err (fit_error (coeff_a w1 w2 X1 X2 Y1 Y2, coeff_b w1 w2 X1 X2 Y1 Y2,
                                coeff_c w1 w2 X1 X2 Y1 Y2, coeff_d w1 w2 X1 X2 Y1 Y2) w_vec resp_vec)
             (\<lambda>ev. Inr (Some ((coeff_a w1 w2 X1 X2 Y1 Y2, coeff_b w1 w2 X1 X2 Y1 Y2,
                                coeff_c w1 w2 X1 X2 Y1 Y2, coeff_d w1 w2 X1 X2 Y1 Y2), ev)))
         else Inr None)"
  using assms by (simp add: pair_candidate_def getitem_def bind_err_def Let_def)

lemma pair_candidate_Inr:
  assumes "c1 < length ii" "c2 < length ii"
    and "ii ! c1 < length w_vec" "ii ! c2 < length w_vec"
    and "ii ! c1 < length resp_vec" "ii ! c2 < length resp_vec"
    and "broadcastable (length w_vec) (length resp_vec)"
  shows "\<exists>r. pair_candidate resp_vec w_vec ii (c1, c2) = Inr r"
proof -
  let ?w1 = "w_vec ! (ii ! c1)" and ?w2 = "w_vec ! (ii ! c2)"
  let ?X1 = "Re (resp_vec ! (ii ! c1))" and ?X2 = "Re (resp_vec ! (ii ! c2))"
  let ?Y1 = "Im (resp_vec ! (ii ! c1))" and ?Y2 = "Im (resp_vec ! (ii ! c2))"
  obtain ev where
    "fit_error (coeff_a ?w1 ?w2 ?X1 ?X2 ?Y1 ?Y2, coeff_b ?w1 ?w2 ?X1 ?X2 ?Y1 ?Y2,
                coeff_c ?w1 ?w2 ?X1 ?X2 ?Y1 ?Y2, coeff_d ?w1 ?w2 ?X1 ?X2 ?Y1 ?Y2) w_vec resp_vec = Inr ev"
    using fit_error_Inr [OF assms(7)] by blast
  then show ?thesis
    by (simp add: pair_candidate_in_range [OF assms(1-6)] Let_def bind_err_def)
qed

lemma pair_candidate_not_ValueError:
  assumes "broadcastable (length w_vec) (length resp_vec)"
  shows "pair_candidate resp_vec w_vec ii p \<noteq> Inl ValueError"
proof -
  obtain c1 c2 where p: "p = (c1, c2)" by (cases p)
  have "fit_error abcd w_vec resp_vec \<noteq> Inl ValueError" for abcd
    using fit_error_Inr [OF assms, of abcd] by auto
  then show ?thesis
    unfolding p pair_candidate_def
    by (auto simp add: getitem_def bind_err_def Let_def split: sum.splits)
qed

lemma pair_candidate_Some:
  assumes "pair_candidate resp_vec w_vec ii p = Inr (Some ((a, b, c, d), ev))"
  shows "0 < d \<and> w_vec \<noteq> [] \<and> broadcastable (length w_vec) (length resp_vec)"
proof -
  obtain c1 c2 where p: "p = (c1, c2)" by (cases p)
  have bc: "broadcastable (length w_vec) (length resp_vec)"
  proof (rule ccontr)
    assume "\<not> broadcastable (length w_vec) (length resp_vec)"
    then have "fit_error abcd w_vec resp_vec = Inl ValueError" for abcd
      by (rule fit_error_Inl)
    then show False
      using assms unfolding p pair_candidate_def
      by (auto simp add: getitem_def bind_err_def Let_def split: if_splits)
  qed
  have "0 < d \<and> w_vec \<noteq> []"
    using assms unfolding p pair_candidate_def
    by (auto simp add: getitem_def bind_err_def Let_def split: if_splits sum.splits)
  with bc show ?thesis by simp
qed


lemma candidates_loop_Inr:
  assumes "\<forall>p \<in> set ps. \<exists>r. pair_candidate resp_vec w_vec ii p = Inr r"
  shows "\<exists>cs. candidates_loop resp_vec w_vec ii ps acc = Inr cs"
  using assms
proof (induction ps arbitrary: acc)
  case Nil
  then show ?case by simp
next
  case (Cons p ps)
  then obtain r where r: "pair_candidate resp_vec w_vec ii p = Inr r" by auto
  from Cons have "\<exists>cs. candidates_loop resp_vec w_vec ii ps acc' = Inr cs" for acc'
    by simp
  then show ?case using r by (cases r) simp_all
qed

lemma candidates_loop_IndexError:
  assumes "\<forall>p \<in> set ps. pair_candidate resp_vec w_vec ii p \<noteq> Inl ValueError"
    and "\<exists>p \<in> set ps. pair_candidate resp_vec w_vec ii p = Inl IndexError"
  shows "candidates_loop resp_vec w_vec ii ps acc = Inl IndexError"
  using assms
proof (induction ps arbitrary: acc)
  case Nil
  then show ?case by simp
next
  case (Cons p ps)
  show ?case
  proof (cases "pair_candidate resp_vec w_vec ii p")
    case (Inl e)
    with Cons.prems(1) have "e = IndexError" by (cases e) auto
    with Inl show ?thesis by simp
  next
    case (Inr r)
    with Cons.prems have "\<exists>p \<in> set ps. pair_candidate resp_vec w_vec ii p = Inl IndexError"
      by auto
    with Cons have "candidates_loop resp_vec w_vec ii ps acc' = Inl IndexError" for acc'
      by simp
    with Inr show ?thesis by (cases r) simp_all
  qed
qed

text \<open>What the loop returns: the start value followed by what the accepted pairs add.\<close>

lemma candidates_loop_set:
  assumes "candidates_loop resp_vec w_vec ii ps acc = Inr cs"
  shows "set cs = set acc \<union> {cd. \<exists>p \<in> set ps. pair_candidate resp_vec w_vec ii p = Inr (Some cd)}"
  using assms
proof (induction ps arbitrary: acc)
  case Nil
  then show ?case by auto
next
  case (Cons p ps)
  show ?case
  proof (cases "pair_candidate resp_vec w_vec ii p")
    case (Inl e)
    with Cons.prems show ?thesis by simp
  next
    case (Inr r)
    show ?thesis
    proof (cases r)
      case None
      with Inr Cons.prems have "candidates_loop resp_vec w_vec ii ps acc = Inr cs" by simp
      from Cons.IH [OF this] show ?thesis using Inr None by auto
    next
      case (Some cd)
      with Inr Cons.prems have "candidates_loop resp_vec w_vec ii ps (acc @ [cd]) = Inr cs" by simp
      from Cons.IH [OF this] show ?thesis using Inr Some by auto
    qed
  qed
qed

lemma candidates_loop_lengths:
  assumes "candidates_loop resp_vec w_vec ii ps [] = Inr cs" "cs \<noteq> []"
  shows "w_vec \<noteq> [] \<and> broadcastable (length resp_vec) (length w_vec)"
proof -
  from assms(2) have "hd cs \<in> set cs" by simp
  then obtain cd :: cand where "cd \<in> set cs" ..
  with candidates_loop_set [OF assms(1)]
  obtain p where "pair_candidate resp_vec w_vec ii p = Inr (Some cd)" by auto
  moreover obtain a b c d ev where "cd = ((a, b, c, d), ev)" by (cases cd) auto
  ultimately show ?thesis
    using pair_candidate_Some [of resp_vec w_vec ii p a b c d ev]
    by (auto simp add: broadcastable_def)
qed

lemma candidates_loop_d_pos:
  assumes "candidates_loop resp_vec w_vec ii ps [] = Inr cs" "((a, b, c, d), ev) \<in> set cs"
  shows "0 < d"
proof -
  from candidates_loop_set [OF assms(1)] assms(2)
  obtain p where "pair_candidate resp_vec w_vec ii p = Inr (Some ((a, b, c, d), ev))" by auto
  then show ?thesis using pair_candidate_Some by blast
qed


subsection \<open>The fallback\<close>

lemma sho_fast_guess_complex_float:
  assumes "length resp_vec div 2 < length w_vec" "resp_vec \<noteq> []"
  shows "sho_fast_guess (ComplexArray resp_vec) (FloatArray w_vec) 200 =
           Inr (Finite (FloatArray [sum_list (map cmod resp_vec) / real (length resp_vec) / 200,
                  w_vec ! (length resp_vec div 2), 200,
                  arctan2 (Im (resp_vec ! (length resp_vec div 2)))
                          (Re (resp_vec ! (length resp_vec div 2)))]))"
  using assms
  by (simp add: sho_fast_guess_def Let_def getitem_def bind_err_def np_mean_def fdiv_def)

lemma sho_fast_guess_float_complex:
  assumes "length w_vec div 2 < length resp_vec" "w_vec \<noteq> []"
  shows "sho_fast_guess (FloatArray w_vec) (ComplexArray resp_vec) 200 =
           Inr (Finite (ComplexArray [complex_of_real (sum_list (map abs w_vec) / real (length w_vec) / 200),
                  resp_vec ! (length w_vec div 2), 200,
                  complex_of_real (arctan2 0 (w_vec ! (length w_vec div 2)))]))"
  using assms
  by (simp add: sho_fast_guess_def Let_def getitem_def bind_err_def np_mean_def fdiv_def)

lemma sho_fast_guess_IndexError:
  assumes "np_len w_vec \<le> np_len resp_vec div 2 \<or> np_len resp_vec = 0"
  shows "sho_fast_guess resp_vec w_vec q = Inl IndexError"
  using assms
  by (cases resp_vec; cases w_vec)
     (auto simp add: sho_fast_guess_def Let_def getitem_def bind_err_def)



subsection \<open>Runs that raise and runs that return\<close>

lemma weighted_guess_Inr:
  assumes "length resp_vec = length w_vec" "w_vec \<noteq> []"
  shows "\<exists>r. weighted_guess resp_vec w_vec cands = Inr r"
proof -
  have "0 < length w_vec" using assms(2) by simp
  then have "length w_vec div 2 < length resp_vec"
    using assms(1) by simp
  from sho_fast_guess_float_complex [OF this assms(2)]
  obtain r where "sho_fast_guess (FloatArray w_vec) (ComplexArray resp_vec) 200 = Inr r"
    by blast
  then show ?thesis
    using assms
    by (auto simp add: weighted_guess_def broadcastable_def split: option.split bool.split)
qed

lemma rev_argsort_nth:
  assumes "c < length ks"
  shows "rev (argsort ks) ! c < length ks"
proof -
  have "rev (argsort ks) ! c \<in> set (rev (argsort ks))"
    using assms by (intro nth_mem) (simp add: argsort_length)
  then show ?thesis by (simp add: argsort_set)
qed

lemma candidates_loop_well_formed:
  assumes "length resp_vec = length w_vec" "num_points \<le> int (length resp_vec)"
  shows "\<exists>cs. candidates_loop resp_vec w_vec (rev (argsort (map cmod resp_vec)))
                (pair_indices (nat num_points)) [] = Inr cs"
proof -
  let ?ii = "rev (argsort (map cmod resp_vec))"
  let ?N = "length resp_vec"
  have len: "length ?ii = ?N" by (simp add: argsort_length)
  have "\<exists>r. pair_candidate resp_vec w_vec ?ii p = Inr r"
    if "p \<in> set (pair_indices (nat num_points))" for p
  proof -
    obtain c1 c2 where p: "p = (c1, c2)" by (cases p)
    with that have "c1 < c2" "c2 < nat num_points" by (simp_all add: pair_indices_set)
    with assms(2) have c: "c1 < ?N" "c2 < ?N" by linarith+
    then have "?ii ! c1 < ?N" "?ii ! c2 < ?N"
      using rev_argsort_nth [of _ "map cmod resp_vec"] by simp_all
    then show ?thesis
      unfolding p using c len assms(1)
      by (intro pair_candidate_Inr) (simp_all add: broadcastable_def)
  qed
  then show ?thesis using candidates_loop_Inr by blast
qed

lemma unit_function_Inr:
  assumes "length resp_vec = length w_vec" "resp_vec \<noteq> []"
    and "num_points \<le> int (length resp_vec)"
  shows "\<exists>r. unit_function resp_vec (Some w_vec) num_points = Inr r"
proof -
  let ?ii = "rev (argsort (map cmod resp_vec))"
  obtain cs where
    cs: "candidates_loop resp_vec w_vec ?ii (pair_indices (nat num_points)) [] = Inr cs"
    using candidates_loop_well_formed [OF assms(1,3)] by blast
  have w: "w_vec \<noteq> []" using assms by auto
  show ?thesis
  proof (cases "cs = []")
    case True
    have "0 < length w_vec" using w by simp
    then have "length resp_vec div 2 < length w_vec" using assms(1) by simp
    from sho_fast_guess_complex_float [OF this assms(2)] show ?thesis
      using cs True by (simp add: unit_function_def)
  next
    case False
    with weighted_guess_Inr [OF assms(1) w, of cs] show ?thesis
      using cs by (simp add: unit_function_def)
  qed
qed

lemma unit_function_IndexError:
  assumes "length resp_vec = length w_vec" "int (length resp_vec) < num_points"
  shows "unit_function resp_vec (Some w_vec) num_points = Inl IndexError"
proof -
  let ?ii = "rev (argsort (map cmod resp_vec))"
  let ?N = "length resp_vec"
  let ?n = "nat num_points"
  have len: "length ?ii = ?N" by (simp add: argsort_length)
  have n: "?N < ?n" using assms(2) by linarith
  have noval: "\<forall>p \<in> set (pair_indices ?n). pair_candidate resp_vec w_vec ?ii p \<noteq> Inl ValueError"
    using assms(1) by (simp add: pair_candidate_not_ValueError broadcastable_def)
  show ?thesis
  proof (cases "?n = 1")
    case True
    then have "?N = 0" using n by simp
    then have "sho_fast_guess (ComplexArray resp_vec) (FloatArray w_vec) 200 = Inl IndexError"
      by (intro sho_fast_guess_IndexError) simp
    moreover have "pair_indices ?n = []" using True by (simp add: pair_indices_def)
    ultimately show ?thesis by (simp add: unit_function_def)
  next
    case False
    with n have n2: "2 \<le> ?n" by linarith
    define c2 where "c2 = max 1 ?N"
    have "0 < c2" "c2 < ?n"
      using n n2 by (simp_all add: c2_def)
    then have mem: "(0, c2) \<in> set (pair_indices ?n)"
      by (simp add: pair_indices_set)
    have "pair_candidate resp_vec w_vec ?ii (0, c2) = Inl IndexError"
    proof (cases "?N = 0")
      case True
      then show ?thesis by (simp add: pair_candidate_def getitem_def bind_err_def argsort_def)
    next
      case False
      then have "0 < ?N" by simp
      then have "?ii ! 0 < length w_vec" "0 < length ?ii"
        using rev_argsort_nth [of 0 "map cmod resp_vec"] assms(1) len by simp_all
      moreover have "\<not> c2 < length ?ii" using len by (simp add: c2_def)
      ultimately show ?thesis
        by (simp add: pair_candidate_def getitem_def bind_err_def)
    qed
    with mem have "\<exists>p \<in> set (pair_indices ?n). pair_candidate resp_vec w_vec ?ii p = Inl IndexError"
      by blast
    from candidates_loop_IndexError [OF noval this] show ?thesis
      by (simp add: unit_function_def)
  qed
qed

subsection \<open>Amplitude and phase of a returned array\<close>

lemma all_finite_Some:
  assumes "all_finite xs = Some ys"
  shows "xs = map Some ys"
proof -
  from assms have n: "None \<notin> set xs" and ys: "ys = map the xs"
    by (auto simp add: all_finite_def split: if_splits)
  have "map (\<lambda>x. Some (the x)) xs = map (\<lambda>x. x) xs"
  proof (rule map_cong [OF refl])
    fix x assume "x \<in> set xs"
    with n show "Some (the x) = x" by (cases x) auto
  qed
  then show ?thesis unfolding ys by (simp add: comp_def)
qed

lemma all_finite_map_Some: "all_finite (map (\<lambda>x. Some (f x)) xs) = Some (map f xs)"
  by (auto simp add: all_finite_def)

text \<open>
  The weights are not negative and every candidate has \<open>d > 0\<close>, so the weighted \<open>d\<close>
  is not negative: the square root of line 204 is never taken of a negative number.
\<close>

lemma weights_nonneg:
  assumes "weights e_vec = Some weight_vec" "x \<in> set weight_vec"
  shows "0 \<le> x"
proof -
  from assms(1) obtain es where
    "all_finite (map (\<lambda>e. map_option (\<lambda>q. q ^ 4) (fdiv 1 e)) es) = Some weight_vec"
    by (auto simp add: weights_def Option.bind_eq_Some_conv)
  then have "map (\<lambda>e. map_option (\<lambda>q. q ^ 4) (fdiv 1 e)) es = map Some weight_vec"
    by (rule all_finite_Some)
  then have "Some x \<in> set (map (\<lambda>e. map_option (\<lambda>q. q ^ 4) (fdiv 1 e)) es)"
    using assms(2) by simp
  then obtain e where "Some x = map_option (\<lambda>q. q ^ 4) (fdiv 1 e)" by auto
  then obtain q :: real where "x = q ^ 4" by (cases "fdiv 1 e") auto
  then show ?thesis by simp
qed

lemma weighted_mean_nonneg:
  assumes "weighted_mean weight_vec col = Some m"
    and "\<forall>x \<in> set weight_vec. 0 \<le> x" "\<forall>y \<in> set col. 0 \<le> y"
  shows "0 \<le> m"
proof -
  have m: "m = sum_list (map2 (*) weight_vec col) / sum_list weight_vec"
    using assms(1) by (auto simp add: weighted_mean_def fdiv_def split: if_splits)
  have "0 \<le> sum_list weight_vec"
    using assms(2) by (simp add: sum_list_nonneg)
  moreover have "0 \<le> sum_list (map2 (*) weight_vec col)"
  proof (rule sum_list_nonneg)
    fix z assume "z \<in> set (map2 (*) weight_vec col)"
    then obtain x y where "(x, y) \<in> set (zip weight_vec col)" "z = x * y" by auto
    then have "0 \<le> x" "0 \<le> y" "z = x * y"
      using assms(2,3) by (auto dest: set_zip_leftD set_zip_rightD)
    then show "0 \<le> z" by simp
  qed
  ultimately show ?thesis unfolding m by simp
qed

lemma weighted_coeffs_d_nonneg:
  assumes "weighted_coeffs cands = Some (a_w, b_w, c_w, d_w)"
    and "\<forall>cd \<in> set cands. 0 < snd (snd (snd (fst cd)))"
  shows "0 \<le> d_w"
proof -
  from assms(1) obtain weight_vec where
    w: "weights (map snd cands) = Some weight_vec"
    and d: "weighted_mean weight_vec (map (\<lambda>((a, b, c, d), e). d) cands) = Some d_w"
    by (auto simp add: weighted_coeffs_def Option.bind_eq_Some_conv)
  have "\<forall>y \<in> set (map (\<lambda>((a, b, c, d), e). d) cands). 0 \<le> y"
    using assms(2) by (auto simp add: less_imp_le)
  with weighted_mean_nonneg [OF d] weights_nonneg [OF w] show ?thesis by blast
qed

lemma weighted_d_nonneg:
  assumes "candidates_loop resp_vec w_vec ii ps [] = Inr cands"
    and "weighted_coeffs cands = Some (a_w, b_w, c_w, d_w)"
  shows "0 \<le> d_w"
proof -
  have "\<forall>cd \<in> set cands. 0 < snd (snd (snd (fst cd)))"
  proof
    fix cd assume "cd \<in> set cands"
    moreover obtain a b c d ev where "cd = ((a, b, c, d), ev)" by (cases cd) auto
    ultimately show "0 < snd (snd (snd (fst cd)))"
      using candidates_loop_d_pos [OF assms(1)] by auto
  qed
  with assms(2) show ?thesis by (rule weighted_coeffs_d_nonneg)
qed

lemma fit_parms_amplitude_phase:
  assumes "fit_parms a b c d = Some (A_fit, w0_fit, Q_fit, phi_fit)"
  shows "0 \<le> A_fit \<and> - pi < phi_fit \<and> phi_fit \<le> pi"
proof -
  from assms have "A_fit = cmod (complex_of_real a + \<i> * complex_of_real b) / d"
    and "phi_fit = arctan2 (- b) (- a)" and "0 \<le> d"
    by (auto simp add: fit_parms_def fdiv_def fsqrt_def Option.bind_eq_Some_conv split: if_splits)
  then show ?thesis using arctan2_bounds [of "- b" "- a"] by simp
qed

lemma np_abs_nonneg: "x \<in> set (np_abs arr) \<Longrightarrow> 0 \<le> x"
  by (cases arr) auto

lemma sho_fast_guess_Finite:
  assumes "sho_fast_guess resp_vec w_vec q = Inr (Finite arr)" "0 \<le> q"
  shows "\<exists>A f Q phi. (arr = FloatArray [A, f, Q, phi]
             \<or> (\<exists>z. arr = ComplexArray [complex_of_real A, z, complex_of_real Q, complex_of_real phi]))
           \<and> 0 \<le> A \<and> - pi < phi \<and> phi \<le> pi"
proof -
  from assms(1) obtain f r m amp where
    f: "np_getitem w_vec (np_len resp_vec div 2) = Inr f"
    and r: "np_getitem resp_vec (np_len resp_vec div 2) = Inr r"
    and m: "np_mean (np_abs resp_vec) = Some m" and amp: "fdiv m q = Some amp"
    and arr: "arr = (case f of FloatVal x \<Rightarrow> FloatArray [amp, x, q, np_angle r]
                     | ComplexVal z \<Rightarrow> ComplexArray [complex_of_real amp, z,
                          complex_of_real q, complex_of_real (np_angle r)])"
    by (auto simp add: sho_fast_guess_def Let_def bind_err_def Option.bind_eq_Some_conv
        split: sum.splits option.splits scalar.splits)
  have "0 \<le> sum_list (np_abs resp_vec)"
    by (rule sum_list_nonneg) (rule np_abs_nonneg)
  then have "0 \<le> m"
    using m by (auto simp add: np_mean_def fdiv_def split: if_splits)
  then have a: "0 \<le> amp"
    using amp assms(2) by (auto simp add: fdiv_def split: if_splits)
  have p: "- pi < np_angle r \<and> np_angle r \<le> pi"
    by (cases r) (simp_all add: arctan2_bounds)
  show ?thesis
    using a p arr by (cases f) auto
qed

lemma weighted_guess_cases:
  assumes "weighted_guess resp_vec w_vec cands = Inr (Finite arr)"
  shows "sho_fast_guess (FloatArray w_vec) (ComplexArray resp_vec) 200 = Inr (Finite arr)
         \<or> (\<exists>a_w b_w c_w d_w A_fit w0_fit Q_fit phi_fit.
               weighted_coeffs cands = Some (a_w, b_w, c_w, d_w)
               \<and> fit_parms a_w b_w c_w d_w = Some (A_fit, w0_fit, Q_fit, phi_fit)
               \<and> arr = FloatArray [A_fit, w0_fit, Q_fit, phi_fit])"
  using assms
  by (auto simp add: weighted_guess_def split: if_splits option.splits bool.splits)

lemma weighted_guess_Finite:
  assumes "weighted_guess resp_vec w_vec cands = Inr (Finite arr)"
  shows "\<exists>A f Q phi. (arr = FloatArray [A, f, Q, phi]
             \<or> (\<exists>z. arr = ComplexArray [complex_of_real A, z, complex_of_real Q, complex_of_real phi]))
           \<and> 0 \<le> A \<and> - pi < phi \<and> phi \<le> pi"
  using weighted_guess_cases [OF assms]
proof
  assume "sho_fast_guess (FloatArray w_vec) (ComplexArray resp_vec) 200 = Inr (Finite arr)"
  then show ?thesis using sho_fast_guess_Finite by simp
next
  assume "\<exists>a_w b_w c_w d_w A_fit w0_fit Q_fit phi_fit.
               weighted_coeffs cands = Some (a_w, b_w, c_w, d_w)
               \<and> fit_parms a_w b_w c_w d_w = Some (A_fit, w0_fit, Q_fit, phi_fit)
               \<and> arr = FloatArray [A_fit, w0_fit, Q_fit, phi_fit]"
  then obtain a_w b_w c_w d_w A_fit w0_fit Q_fit phi_fit where
    wc: "weighted_coeffs cands = Some (a_w, b_w, c_w, d_w)"
    and fp: "fit_parms a_w b_w c_w d_w = Some (A_fit, w0_fit, Q_fit, phi_fit)"
    and arr: "arr = FloatArray [A_fit, w0_fit, Q_fit, phi_fit]"
    by blast
  from fit_parms_amplitude_phase [OF fp]
  show ?thesis using arr by blast
qed

lemma unit_function_Finite:
  assumes "unit_function resp_vec (Some w_vec) num_points = Inr (Finite arr)"
  shows "\<exists>A f Q phi. (arr = FloatArray [A, f, Q, phi]
             \<or> (\<exists>z. arr = ComplexArray [complex_of_real A, z, complex_of_real Q, complex_of_real phi]))
           \<and> 0 \<le> A \<and> - pi < phi \<and> phi \<le> pi"
proof -
  let ?ii = "rev (argsort (map cmod resp_vec))"
  from assms obtain cs where
    cs: "candidates_loop resp_vec w_vec ?ii (pair_indices (nat num_points)) [] = Inr cs"
    and res: "(if cs \<noteq> [] then weighted_guess resp_vec w_vec cs
               else sho_fast_guess (ComplexArray resp_vec) (FloatArray w_vec) 200) = Inr (Finite arr)"
    by (auto simp add: unit_function_def split: sum.splits)
  show ?thesis
  proof (cases "cs = []")
    case True
    with res show ?thesis using sho_fast_guess_Finite by simp
  next
    case False
    with res show ?thesis using weighted_guess_Finite by simp
  qed
qed

subsection \<open>Evaluating a run on given numbers\<close>

lemma fit_error_closed:
  assumes "0 < d" "c \<noteq> 0" "length w_vec = length resp_vec"
  shows "fit_error (a, b, c, d) w_vec resp_vec =
     Inr (Some (sum_list (map2 (\<lambda>w r. (Re (Complex a b / Complex (d - w\<^sup>2) (- (c * w))) - Re r)\<^sup>2) w_vec resp_vec)
              + sum_list (map2 (\<lambda>w r. (Im (Complex a b / Complex (d - w\<^sup>2) (- (c * w))) - Im r)\<^sup>2) w_vec resp_vec)))"
proof -
  have d: "d \<noteq> 0" using assms(1) by simp
  have z: "map2 (-) (map f w_vec) (map g resp_vec) = map2 (\<lambda>w r. f w - g r) w_vec resp_vec"
    for f :: "real \<Rightarrow> real" and g :: "complex \<Rightarrow> real"
    by (simp add: zip_map_map map_zip_map map_zip_map2 split_def)
  show ?thesis
    unfolding fit_error_def prod.case fit_parms_Some [OF assms(1,2)] option.case
      H_fit_closed [OF assms(1,2)] sq_error_def
    using assms(3)
    by (simp add: all_finite_map_Some broadcastable_def broadcast_sub_def z comp_def
        zip_map_map map_zip_map map_zip_map2 split_def)
qed

lemma cmod_le_cmod_iff: "cmod z1 \<le> cmod z2 \<longleftrightarrow> (Re z1)\<^sup>2 + (Im z1)\<^sup>2 \<le> (Re z2)\<^sup>2 + (Im z2)\<^sup>2"
  by (simp add: cmod_def)


subsection \<open>Input validation\<close>

lemma ex4_ii: "rev (argsort (map cmod [Complex 3 0, Complex 2 0, Complex 1 0])) = [0, 1, 2]"
  by (simp add: argsort_def cmod_le_cmod_iff)

lemma ex4_pair:
  "pair_candidate [Complex 3 0, Complex 2 0, Complex 1 0] [1, 2, 3, 4, 5] [0, 1, 2] (0, Suc 0) = Inr None"
  by (simp add: pair_candidate_def getitem_def bind_err_def denom_of_def)

text \<open>
  Claim C3, as stated, is false: the function checks nothing before it computes. A
  response of 3 samples with a frequency vector of 5 and \<^verbatim>\<open>num_points = 2\<close> is not
  refused; the only pair has a negative \<open>denom\<close>, and the fallback returns.
\<close>

theorem mismatched_lengths_return:
  "unit_function [Complex 3 0, Complex 2 0, Complex 1 0] (Some [1, 2, 3, 4, 5]) 2
     = Inr (Finite (FloatArray [1 / 100, 2, 200, 0]))"
  unfolding unit_function_two_points [OF ex4_ii ex4_pair]
  by (simp add: sho_fast_guess_def getitem_def bind_err_def np_mean_def fdiv_def arctan2_def cmod_def)

text \<open>
  Claim C3, amended. For vectors of equal length: when the length is below
  \<^verbatim>\<open>num_points\<close> the call ends in Python's \<^verbatim>\<open>IndexError\<close>, raised by a subscript
  in the pair loop or in the fallback (after the sort, not before any computation);
  when the vectors are not empty and \<^verbatim>\<open>num_points\<close> is at most their length, no
  exception is raised.
\<close>

theorem no_input_validation:
  assumes "length resp_vec = length w_vec"
  shows "(int (length resp_vec) < num_points \<longrightarrow>
            unit_function resp_vec (Some w_vec) num_points = Inl IndexError)
       \<and> (resp_vec \<noteq> [] \<and> num_points \<le> int (length resp_vec) \<longrightarrow>
            (\<exists>r. unit_function resp_vec (Some w_vec) num_points = Inr r))"
  using unit_function_IndexError [OF assms] unit_function_Inr [OF assms] by blast

theorem no_input_validation_witness:
  "unit_function [Complex 1 0] (Some [300000]) 5 = Inl IndexError
   \<and> (\<exists>r. unit_function [Complex 1 0] (Some [300000]) 1 = Inr r)"
  using no_input_validation [of "[Complex 1 0]" "[300000]" 5]
    no_input_validation [of "[Complex 1 0]" "[300000]" 1]
  by simp

subsection \<open>The weighted average and the plausibility test\<close>

lemma weights_zero:
  assumes "Some 0 \<in> set e_vec"
  shows "weights e_vec = None"
proof (cases "all_finite e_vec")
  case None
  then show ?thesis by (simp add: weights_def)
next
  case (Some es)
  then have "e_vec = map Some es" by (rule all_finite_Some)
  with assms have "0 \<in> set es" by auto
  then have "None \<in> set (map (\<lambda>e. map_option (\<lambda>q. q ^ 4) (fdiv 1 e)) es)"
    by (force simp add: fdiv_def)
  then show ?thesis using Some by (simp add: weights_def all_finite_def)
qed

lemma weights_single: "e \<noteq> 0 \<Longrightarrow> weights [Some e] = Some [(1 / e) ^ 4]"
  by (simp add: weights_def all_finite_def fdiv_def)

lemma weighted_coeffs_single:
  assumes "e \<noteq> 0"
  shows "weighted_coeffs [((a, b, c, d), Some e)] = Some (a, b, c, d)"
  using assms by (simp add: weighted_coeffs_def weights_single weighted_mean_def fdiv_def)

lemma np_std_closed:
  assumes "xs \<noteq> []"
  shows "np_std xs = Some (sqrt (sum_list (map (\<lambda>x. (x - sum_list xs / real (length xs))\<^sup>2) xs)
                                  / real (length xs)))"
  using assms by (simp add: np_std_def np_mean_def fdiv_def)

lemma np_std_nonzero:
  assumes "x \<in> set xs" "y \<in> set xs" "x \<noteq> y" "np_std xs = Some s"
  shows "s \<noteq> 0"
proof
  assume "s = 0"
  let ?m = "sum_list xs / real (length xs)"
  have ne: "xs \<noteq> []" using assms(1) by auto
  with assms(4) \<open>s = 0\<close> have "sum_list (map (\<lambda>x. (x - ?m)\<^sup>2) xs) / real (length xs) = 0"
    by (simp add: np_std_closed)
  with ne have "sum_list (map (\<lambda>x. (x - ?m)\<^sup>2) xs) = 0" by simp
  then have "\<forall>z \<in> set (map (\<lambda>x. (x - ?m)\<^sup>2) xs). z = 0"
    by (subst (asm) sum_list_nonneg_eq_0_iff) auto
  then have "\<forall>v \<in> set xs. v = ?m" by simp
  with assms(1,2) have "x = ?m \<and> y = ?m" by blast
  with assms(3) show False by simp
qed

lemma implausible_Some:
  assumes "np_std (map cmod resp_vec) = Some s1"
    and "np_std (map cmod (broadcast_sub resp_vec Hs)) = Some s2" "s2 \<noteq> 0"
  shows "implausible resp_vec w_vec Hs w0_fit =
           Some (s1 / s2 < 12 / 10 \<or> w0_fit < Min (set w_vec) \<or> Max (set w_vec) < w0_fit)"
  using assms by (simp add: implausible_def)

lemma case_bool_if: "(case v of True \<Rightarrow> x | False \<Rightarrow> y) = (if v then x else y)"
  by (cases v) simp_all

text \<open>The run through lines 193-214 once the candidate set is known.\<close>

lemma weighted_run:
  assumes "candidates_loop resp_vec w_vec (rev (argsort (map cmod resp_vec)))
             (pair_indices (nat num_points)) [] = Inr cands"
    and "cands \<noteq> []"
    and "weighted_coeffs cands = Some (a_w, b_w, c_w, d_w)"
    and "fit_parms a_w b_w c_w d_w = Some (A_fit, w0_fit, Q_fit, phi_fit)"
    and "all_finite (H_fit A_fit w0_fit Q_fit phi_fit w_vec) = Some Hs"
    and "np_std (map cmod resp_vec) = Some s1"
    and "np_std (map cmod (broadcast_sub resp_vec Hs)) = Some s2" "s2 \<noteq> 0"
  shows "unit_function resp_vec (Some w_vec) num_points =
           (if s1 / s2 < 12 / 10 \<or> w0_fit < Min (set w_vec) \<or> Max (set w_vec) < w0_fit
            then sho_fast_guess (FloatArray w_vec) (ComplexArray resp_vec) 200
            else Inr (Finite (FloatArray [A_fit, w0_fit, Q_fit, phi_fit])))"
proof -
  from candidates_loop_lengths [OF assms(1,2)]
  have g: "broadcastable (length resp_vec) (length w_vec) \<and> w_vec \<noteq> []" by simp
  have "unit_function resp_vec (Some w_vec) num_points = weighted_guess resp_vec w_vec cands"
    using assms(1,2) by (simp add: unit_function_def)
  also have "\<dots> = (case implausible resp_vec w_vec Hs w0_fit of None \<Rightarrow> Inr NonFinite
                     | Some True \<Rightarrow> sho_fast_guess (FloatArray w_vec) (ComplexArray resp_vec) 200
                     | Some False \<Rightarrow> Inr (Finite (FloatArray [A_fit, w0_fit, Q_fit, phi_fit])))"
    using g by (simp add: weighted_guess_def assms(3,4,5))
  also have "\<dots> = (if s1 / s2 < 12 / 10 \<or> w0_fit < Min (set w_vec) \<or> Max (set w_vec) < w0_fit
            then sho_fast_guess (FloatArray w_vec) (ComplexArray resp_vec) 200
            else Inr (Finite (FloatArray [A_fit, w0_fit, Q_fit, phi_fit])))"
    unfolding implausible_Some [OF assms(6,7,8)] option.case
    by (rule case_bool_if)
  finally show ?thesis .
qed

lemma zero_error_run:
  assumes "candidates_loop resp_vec w_vec (rev (argsort (map cmod resp_vec)))
             (pair_indices (nat num_points)) [] = Inr cands"
    and "(abcd, Some 0) \<in> set cands"
  shows "unit_function resp_vec (Some w_vec) num_points = Inr NonFinite"
proof -
  from assms(2) have ne: "cands \<noteq> []" by auto
  from candidates_loop_lengths [OF assms(1) ne]
  have g: "broadcastable (length resp_vec) (length w_vec) \<and> w_vec \<noteq> []" by simp
  from assms(2) have "Some 0 \<in> set (map snd cands)" by force
  then have "weighted_coeffs cands = None"
    by (simp add: weighted_coeffs_def weights_zero)
  with g have "weighted_guess resp_vec w_vec cands = Inr NonFinite"
    by (simp add: weighted_guess_def)
  then show ?thesis using assms(1) ne by (simp add: unit_function_def)
qed

lemma two_point_loop:
  assumes "rev (argsort (map cmod resp_vec)) = ii"
    and "pair_candidate resp_vec w_vec ii (0, Suc 0) = Inr r"
  shows "candidates_loop resp_vec w_vec (rev (argsort (map cmod resp_vec))) (pair_indices (nat 2)) []
           = Inr (case r of None \<Rightarrow> [] | Some cd \<Rightarrow> [cd])"
  using assms by (cases r) (simp_all add: pair_indices_2)

lemma single_candidate_H:
  assumes "0 < d" "c \<noteq> 0"
  shows "all_finite (H_fit (cmod (Complex a b) / d) (sqrt d) (- sqrt d / c) (arctan2 (- b) (- a)) w_vec)
           = Some (map (\<lambda>w. Complex a b / Complex (d - w\<^sup>2) (- (c * w))) w_vec)"
  by (simp only: H_fit_closed [OF assms] all_finite_map_Some)

lemma swapped_fallback_not_float:
  "sho_fast_guess (FloatArray w_vec) (ComplexArray resp_vec) q \<noteq> Inr (Finite (FloatArray xs))"
  by (auto simp add: sho_fast_guess_def Let_def bind_err_def getitem_def
      split: option.splits if_splits)

subsection \<open>A candidate whose error score is exactly zero\<close>

text \<open>
  Two samples, at the frequencies 0 and 2, that lie exactly on the response of the
  coefficients \<open>(a, b, c, d) = (-8, 0, 1, 4)\<close>. Every intermediate value is a small
  integer or a power of two, so the error score is 0 in floating point as well.
\<close>

lemma ex1_ii: "rev (argsort (map cmod [Complex (- 2) 0, Complex 0 (- 4)])) = [1, 0]"
  by (simp add: argsort_def cmod_le_cmod_iff)

lemma ex1_pair:
  "pair_candidate [Complex (- 2) 0, Complex 0 (- 4)] [0, 2] [1, 0] (0, Suc 0)
     = Inr (Some ((- 8, 0, 1, 4), Some 0))"
proof -
  have v: "denom_of 2 0 0 (- 2) (- 4) 0 = 32" "coeff_a 2 0 0 (- 2) (- 4) 0 = - 8"
    "coeff_b 2 0 0 (- 2) (- 4) 0 = 0" "coeff_c 2 0 0 (- 2) (- 4) 0 = 1"
    "coeff_d 2 0 0 (- 2) (- 4) 0 = 4"
    by (simp_all add: denom_of_def coeff_a_def coeff_b_def coeff_c_def coeff_d_def)
  have e: "fit_error (- 8, 0, 1, 4) [0, 2] [Complex (- 2) 0, Complex 0 (- 4)] = Inr (Some 0)"
    by (subst fit_error_closed) (simp_all add: Re_divide Im_divide power2_eq_square)
  show ?thesis
    by (subst pair_candidate_in_range) (simp_all add: v e bind_err_def)
qed

lemma ex1_loop:
  "candidates_loop [Complex (- 2) 0, Complex 0 (- 4)] [0, 2]
     (rev (argsort (map cmod [Complex (- 2) 0, Complex 0 (- 4)]))) (pair_indices (nat 2)) []
   = Inr [((- 8, 0, 1, 4), Some 0)]"
  using two_point_loop [OF ex1_ii ex1_pair] by simp

lemma ex1_parms: "fit_parms (- 8) 0 1 4 = Some (2, 2, - 2, 0)"
proof -
  have "sqrt 4 = 2" by (rule real_sqrt_unique) simp_all
  then show ?thesis by (simp add: fit_parms_Some arctan2_def cmod_def)
qed

text \<open>
  Claim C2, as stated, is false: the candidate of these two samples has the error score
  0 and the fit parameters \<open>(2, 2, -2, 0)\<close>, and the function does not return them. It
  goes on to \<^verbatim>\<open>weight_vec = (1 / e_vec) ** 4\<close>, which divides by zero, and the result
  is not finite.
\<close>

theorem zero_error_divides_by_zero:
  "candidates_loop [Complex (- 2) 0, Complex 0 (- 4)] [0, 2]
     (rev (argsort (map cmod [Complex (- 2) 0, Complex 0 (- 4)]))) (pair_indices (nat 2)) []
     = Inr [((- 8, 0, 1, 4), Some 0)]
   \<and> fit_parms (- 8) 0 1 4 = Some (2, 2, - 2, 0)
   \<and> unit_function [Complex (- 2) 0, Complex 0 (- 4)] (Some [0, 2]) 2 = Inr NonFinite"
  using ex1_loop ex1_parms zero_error_run [OF ex1_loop] by simp

text \<open>
  Claim C2, amended. The function has no exact-match case: whenever the candidate set
  holds a candidate whose error score is exactly 0, the run reaches the weights, divides
  by zero there, and what it returns is not finite (numpy: four \<^verbatim>\<open>nan\<close>).
\<close>

theorem zero_error_no_bypass:
  assumes "candidates_loop resp_vec w_vec (rev (argsort (map cmod resp_vec)))
             (pair_indices (nat num_points)) [] = Inr cands"
    and "(abcd, Some 0) \<in> set cands"
  shows "unit_function resp_vec (Some w_vec) num_points = Inr NonFinite"
  using assms by (rule zero_error_run)

theorem zero_error_no_bypass_witness:
  "((- 8, 0, 1, 4), Some 0) \<in> set [((- 8, 0, 1, 4), Some (0::real))]
   \<and> unit_function [Complex (- 2) 0, Complex 0 (- 4)] (Some [0, 2]) 2 = Inr NonFinite"
  using zero_error_no_bypass [OF ex1_loop] by simp

subsection \<open>No exception, amplitude and phase\<close>

text \<open>
  Claim C4, as stated, is false in two ways. Two empty vectors have equal length, which
  is not below \<^verbatim>\<open>num_points = 0\<close>, and the fallback's subscript \<^verbatim>\<open>w_vec[0]\<close> raises.
  And the two samples \<open>-2\<close> and \<open>-4i\<close> at the frequencies 0 and 2 of the previous
  subsection raise nothing, but their one candidate has the error score 0, the weights
  divide by zero and the returned array holds no finite number (numpy: four
  \<^verbatim>\<open>nan\<close>), so no amplitude that is at least 0.
\<close>

theorem well_formed_input_fails:
  "unit_function [] (Some []) 0 = Inl IndexError
   \<and> unit_function [Complex (- 2) 0, Complex 0 (- 4)] (Some [0, 2]) 2 = Inr NonFinite"
proof -
  have "unit_function [] (Some []) 0 = Inl IndexError"
    by (simp add: unit_function_def pair_indices_def sho_fast_guess_def getitem_def bind_err_def)
  moreover have "unit_function [Complex (- 2) 0, Complex 0 (- 4)] (Some [0, 2]) 2 = Inr NonFinite"
    using zero_error_run [OF ex1_loop] by simp
  ultimately show ?thesis by simp
qed

text \<open>
  Claim C4, amended. For non-empty vectors of equal length, at least \<^verbatim>\<open>num_points\<close>
  long, the call raises nothing; and whenever it returns an array of finite numbers
  (no floating-point division by zero on the way), the array has four entries, its
  amplitude is real and at least 0 and its phase is real and in \<open>(-\<pi>, \<pi>]\<close>.
\<close>

theorem well_formed_run:
  assumes "length resp_vec = length w_vec" "resp_vec \<noteq> []"
    and "num_points \<le> int (length resp_vec)"
  shows "(\<exists>r. unit_function resp_vec (Some w_vec) num_points = Inr r)
       \<and> (\<forall>arr. unit_function resp_vec (Some w_vec) num_points = Inr (Finite arr)
              \<longrightarrow> params_ok arr)"
proof -
  have "params_ok arr"
    if "unit_function resp_vec (Some w_vec) num_points = Inr (Finite arr)" for arr
    using unit_function_Finite [OF that] by auto
  with unit_function_Inr [OF assms] show ?thesis by blast
qed

lemma ex5_pair:
  "pair_candidate [Complex 3 0, Complex 2 0, Complex 1 0] [1, 2, 3] [0, 1, 2] (0, Suc 0) = Inr None"
  by (simp add: pair_candidate_def getitem_def bind_err_def denom_of_def)

lemma ex5: "unit_function [Complex 3 0, Complex 2 0, Complex 1 0] (Some [1, 2, 3]) 2
     = Inr (Finite (FloatArray [1 / 100, 2, 200, 0]))"
  unfolding unit_function_two_points [OF ex4_ii ex5_pair]
  by (simp add: sho_fast_guess_def getitem_def bind_err_def np_mean_def fdiv_def arctan2_def cmod_def)

theorem well_formed_run_witness:
  "unit_function [Complex 3 0, Complex 2 0, Complex 1 0] (Some [1, 2, 3]) 2
     = Inr (Finite (FloatArray [1 / 100, 2, 200, 0]))
   \<and> params_ok (FloatArray [1 / 100, 2, 200, 0])"
  using well_formed_run [of "[Complex 3 0, Complex 2 0, Complex 1 0]" "[1, 2, 3]" 2] ex5
  by simp

subsection \<open>A weighted fit that fails the plausibility test\<close>

text \<open>
  Three samples at the frequencies 1, 2, 3. The two largest give the coefficients
  \<open>(-10, 10, -1, 10)\<close>, so the fitted resonance frequency is \<open>sqrt 10\<close>, above the band.
\<close>

lemma ex3_ii: "rev (argsort (map cmod [Complex (- 1) 1, Complex (- 1) 2, Complex 2 4])) = [2, 1, 0]"
  by (simp add: argsort_def cmod_le_cmod_iff)

lemma ex3_pair:
  "pair_candidate [Complex (- 1) 1, Complex (- 1) 2, Complex 2 4] [1, 2, 3] [2, 1, 0] (0, Suc 0)
     = Inr (Some ((- 10, 10, - 1, 10), Some (2 / 41)))"
proof -
  have v: "denom_of 3 2 2 (- 1) 4 2 = 40" "coeff_a 3 2 2 (- 1) 4 2 = - 10"
    "coeff_b 3 2 2 (- 1) 4 2 = 10" "coeff_c 3 2 2 (- 1) 4 2 = - 1"
    "coeff_d 3 2 2 (- 1) 4 2 = 10"
    by (simp_all add: denom_of_def coeff_a_def coeff_b_def coeff_c_def coeff_d_def)
  have e: "fit_error (- 10, 10, - 1, 10) [1, 2, 3] [Complex (- 1) 1, Complex (- 1) 2, Complex 2 4]
             = Inr (Some (2 / 41))"
    by (subst fit_error_closed) (simp_all add: Re_divide Im_divide power2_eq_square)
  show ?thesis
    by (subst pair_candidate_in_range) (simp_all add: v e bind_err_def)
qed

lemma ex3_loop:
  "candidates_loop [Complex (- 1) 1, Complex (- 1) 2, Complex 2 4] [1, 2, 3]
     (rev (argsort (map cmod [Complex (- 1) 1, Complex (- 1) 2, Complex 2 4]))) (pair_indices (nat 2)) []
   = Inr [((- 10, 10, - 1, 10), Some (2 / 41))]"
  using two_point_loop [OF ex3_ii ex3_pair] by simp

lemma ex3_H:
  "map (\<lambda>w. Complex (- 10) 10 / Complex (10 - w\<^sup>2) (- (- 1 * w))) [1, 2, 3]
     = [Complex (- 40 / 41) (50 / 41), Complex (- 1) 2, Complex 2 4]"
  by (simp add: complex_eq_iff Re_divide Im_divide power2_eq_square)

lemma ex3_resid:
  "broadcast_sub [Complex (- 1) 1, Complex (- 1) 2, Complex 2 4]
     [Complex (- 40 / 41) (50 / 41), Complex (- 1) 2, Complex 2 4]
   = [Complex (- 1 / 41) (- 9 / 41), 0, 0]"
  by (simp add: broadcast_sub_def complex_eq_iff)

text \<open>
  Claim C1 describes the fallback: amplitude = mean response magnitude / 200, resonance
  frequency = the frequency at the midpoint index, quality factor = 200, phase = the
  argument of the response at the midpoint index. When the plausibility test fails, line
  212 calls \<^verbatim>\<open>sho_fast_guess(w_vec, resp_vec)\<close> with the two arguments exchanged (the
  signature, and the call of line 216, have the response first). On this input the call
  returns a complex array: amplitude = mean of the frequencies / 200 \<open>= 1/100\<close>,
  resonance frequency = the response \<open>-1 + 2i\<close> at the midpoint, phase = the argument of
  the frequency 2, that is 0. The claim's values are \<open>(sqrt 2 + 3 * sqrt 5) / 600\<close>,
  \<open>2\<close>, \<open>200\<close> and the argument of \<open>-1 + 2i\<close>.
\<close>

theorem implausible_fit_swaps_arguments:
  "unit_function [Complex (- 1) 1, Complex (- 1) 2, Complex 2 4] (Some [1, 2, 3]) 2
     = Inr (Finite (ComplexArray [complex_of_real (1 / 100), Complex (- 1) 2, 200, 0]))"
proof -
  let ?resp = "[Complex (- 1) 1, Complex (- 1) 2, Complex 2 4]"
  let ?Hs = "[Complex (- 40 / 41) (50 / 41), Complex (- 1) 2, Complex 2 4]"
  obtain s1 where s1: "np_std (map cmod ?resp) = Some s1"
    by (simp add: np_std_closed)
  obtain s2 where s2: "np_std (map cmod (broadcast_sub ?resp ?Hs)) = Some s2"
    unfolding ex3_resid by (simp add: np_std_closed)
  have nz: "s2 \<noteq> 0"
  proof (rule np_std_nonzero [of "cmod (Complex (- 1 / 41) (- 9 / 41))" _ "cmod 0"])
    show "np_std (map cmod [Complex (- 1 / 41) (- 9 / 41), 0, 0]) = Some s2"
      using s2 unfolding ex3_resid .
    show "cmod (Complex (- 1 / 41) (- 9 / 41)) \<in> set (map cmod [Complex (- 1 / 41) (- 9 / 41), 0, 0])"
      by simp
    show "cmod 0 \<in> set (map cmod [Complex (- 1 / 41) (- 9 / 41), 0, 0])"
      by simp
    show "cmod (Complex (- 1 / 41) (- 9 / 41)) \<noteq> cmod 0"
      by (simp add: complex_eq_iff)
  qed
  have "all_finite (H_fit (cmod (Complex (- 10) 10) / 10) (sqrt 10) (- sqrt 10 / - 1)
              (arctan2 (- 10) (- (- 10))) [1, 2, 3])
          = Some (map (\<lambda>w. Complex (- 10) 10 / Complex (10 - w\<^sup>2) (- (- 1 * w))) [1, 2, 3])"
    by (rule single_candidate_H) simp_all
  then have H: "all_finite (H_fit (cmod (Complex (- 10) 10) / 10) (sqrt 10) (- sqrt 10 / - 1)
              (arctan2 (- 10) (- (- 10))) [1, 2, 3]) = Some ?Hs"
    unfolding ex3_H .
  have big: "Max (set [1, 2, 3 :: real]) < sqrt 10"
  proof -
    have "(3::real) < sqrt 10" by (rule real_less_rsqrt) simp
    then show ?thesis by simp
  qed
  have "unit_function ?resp (Some [1, 2, 3]) 2
          = sho_fast_guess (FloatArray [1, 2, 3]) (ComplexArray ?resp) 200"
    using weighted_run [OF ex3_loop _ weighted_coeffs_single fit_parms_Some H s1 s2 nz] big
    by simp
  also have "\<dots> = Inr (Finite (ComplexArray [complex_of_real (1 / 100), Complex (- 1) 2, 200, 0]))"
    by (subst sho_fast_guess_float_complex) (simp_all add: arctan2_def)
  finally show ?thesis .
qed

subsection \<open>A weighted fit that passes the plausibility test\<close>

text \<open>
  Three samples at the frequencies 1, 2, 3. The two largest lie on the response of the
  coefficients \<open>(0, 200, 4, 4)\<close>; the third is off it by \<open>29/13\<close>. The ratio of the two
  standard deviations is about 9, and the fitted resonance frequency 2 is in the band.
\<close>

lemma ex2_ii:
  "rev (argsort (map cmod [Complex (- 32) 24, Complex (- 25) 0, Complex (- 15) (- 8)])) = [0, 1, 2]"
  by (simp add: argsort_def cmod_le_cmod_iff)

lemma ex2_pair:
  "pair_candidate [Complex (- 32) 24, Complex (- 25) 0, Complex (- 15) (- 8)] [1, 2, 3] [0, 1, 2]
     (0, Suc 0) = Inr (Some ((0, 200, 4, 4), Some (841 / 169)))"
proof -
  have v: "denom_of 1 2 (- 32) (- 25) 24 0 = 450" "coeff_a 1 2 (- 32) (- 25) 24 0 = 0"
    "coeff_b 1 2 (- 32) (- 25) 24 0 = 200" "coeff_c 1 2 (- 32) (- 25) 24 0 = 4"
    "coeff_d 1 2 (- 32) (- 25) 24 0 = 4"
    by (simp_all add: denom_of_def coeff_a_def coeff_b_def coeff_c_def coeff_d_def)
  have e: "fit_error (0, 200, 4, 4) [1, 2, 3]
             [Complex (- 32) 24, Complex (- 25) 0, Complex (- 15) (- 8)] = Inr (Some (841 / 169))"
    by (subst fit_error_closed) (simp_all add: Re_divide Im_divide power2_eq_square)
  show ?thesis
    by (subst pair_candidate_in_range) (simp_all add: v e bind_err_def)
qed

lemma ex2_loop:
  "candidates_loop [Complex (- 32) 24, Complex (- 25) 0, Complex (- 15) (- 8)] [1, 2, 3]
     (rev (argsort (map cmod [Complex (- 32) 24, Complex (- 25) 0, Complex (- 15) (- 8)])))
     (pair_indices (nat 2)) []
   = Inr [((0, 200, 4, 4), Some (841 / 169))]"
  using two_point_loop [OF ex2_ii ex2_pair] by simp

lemma ex2_H:
  "map (\<lambda>w. Complex 0 200 / Complex (4 - w\<^sup>2) (- (4 * w))) [1, 2, 3]
     = [Complex (- 32) 24, Complex (- 25) 0, Complex (- 2400 / 169) (- 1000 / 169)]"
  by (simp add: complex_eq_iff Re_divide Im_divide power2_eq_square)

lemma ex2_resid:
  "broadcast_sub [Complex (- 32) 24, Complex (- 25) 0, Complex (- 15) (- 8)]
     [Complex (- 32) 24, Complex (- 25) 0, Complex (- 2400 / 169) (- 1000 / 169)]
   = [0, 0, Complex (- 135 / 169) (- 352 / 169)]"
  by (simp add: broadcast_sub_def complex_eq_iff)

lemma cmod_Complex_eq:
  assumes "0 \<le> r" "x\<^sup>2 + y\<^sup>2 = r\<^sup>2"
  shows "cmod (Complex x y) = r"
  unfolding cmod_def using assms by (simp add: real_sqrt_unique)

lemma ex2_s1:
  "np_std (map cmod [Complex (- 32) 24, Complex (- 25) 0, Complex (- 15) (- 8)]) = Some (sqrt (818 / 9))"
proof -
  have "cmod (Complex (- 32) 24) = 40" "cmod (Complex (- 25) 0) = 25" "cmod (Complex (- 15) (- 8)) = 17"
    by (rule cmod_Complex_eq; simp)+
  then have "map cmod [Complex (- 32) 24, Complex (- 25) 0, Complex (- 15) (- 8)] = [40, 25, 17]"
    by (simp only: list.map)
  moreover have "np_std [40, 25, 17] = Some (sqrt (818 / 9))"
    by (simp add: np_std_closed power2_eq_square)
  ultimately show ?thesis by (simp only:)
qed

lemma ex2_s2:
  "np_std (map cmod [0, 0, Complex (- 135 / 169) (- 352 / 169)]) = Some (sqrt (1682 / 1521))"
proof -
  have "cmod (Complex (- 135 / 169) (- 352 / 169)) = 29 / 13"
    by (rule cmod_Complex_eq) (simp_all add: power2_eq_square)
  then have "map cmod [0, 0, Complex (- 135 / 169) (- 352 / 169)] = [0, 0, 29 / 13]"
    by (simp only: list.map norm_zero)
  moreover have "np_std [0, 0, 29 / 13] = Some (sqrt (1682 / 1521))"
    by (simp add: np_std_closed power2_eq_square)
  ultimately show ?thesis by (simp only:)
qed

lemma sqrt_4: "sqrt 4 = 2"
  by (rule real_sqrt_unique) simp_all

lemma ex2_H_all:
  "all_finite (H_fit (cmod (Complex 0 200) / 4) (sqrt 4) (- sqrt 4 / 4) (arctan2 (- 200) (- 0)) [1, 2, 3])
     = Some [Complex (- 32) 24, Complex (- 25) 0, Complex (- 2400 / 169) (- 1000 / 169)]"
proof -
  have "all_finite (H_fit (cmod (Complex 0 200) / 4) (sqrt 4) (- sqrt 4 / 4)
              (arctan2 (- 200) (- 0)) [1, 2, 3])
          = Some (map (\<lambda>w. Complex 0 200 / Complex (4 - w\<^sup>2) (- (4 * w))) [1, 2, 3])"
    by (rule single_candidate_H) simp_all
  then show ?thesis unfolding ex2_H .
qed

lemma ex2_s2_resid:
  "np_std (map cmod (broadcast_sub [Complex (- 32) 24, Complex (- 25) 0, Complex (- 15) (- 8)]
       [Complex (- 32) 24, Complex (- 25) 0, Complex (- 2400 / 169) (- 1000 / 169)]))
     = Some (sqrt (1682 / 1521))"
  unfolding ex2_resid by (rule ex2_s2)

lemma ex2_ratio: "\<not> sqrt (818 / 9) / sqrt (1682 / 1521) < (12 / 10 :: real)"
proof -
  have "(12 / 10 :: real) \<le> sqrt ((818 / 9) / (1682 / 1521))"
    by (rule real_le_rsqrt) (simp add: power2_eq_square)
  then show ?thesis unfolding real_sqrt_divide by (simp only: not_less)
qed

lemma ex2_parms:
  "[cmod (Complex 0 200) / 4, sqrt 4, - sqrt 4 / 4, arctan2 (- 200) (- 0)]
     = [50, 2, - (1 / 2), - (pi / 2)]"
  by (simp add: sqrt_4 arctan2_def cmod_def)

text \<open>
  Claim C5. When the candidate set is not empty and the weighted fit is finite, the
  function returns the weighted fit exactly when the ratio of the standard deviations
  is at least 1.2 and the fitted resonance frequency lies in
  \<open>[min(w_vec), max(w_vec)]\<close>; otherwise the fit is rejected and the function returns
  what the call \<^verbatim>\<open>sho_fast_guess(w_vec, resp_vec)\<close> of line 212 returns. So a real-valued
  array returned on this path carries the fitted resonance frequency, and it lies in
  the band.
\<close>

theorem weighted_fit_plausibility:
  assumes "candidates_loop resp_vec w_vec (rev (argsort (map cmod resp_vec)))
             (pair_indices (nat num_points)) [] = Inr cands"
    and "cands \<noteq> []"
    and "weighted_coeffs cands = Some (a_w, b_w, c_w, d_w)"
    and "fit_parms a_w b_w c_w d_w = Some (A_fit, w0_fit, Q_fit, phi_fit)"
    and "all_finite (H_fit A_fit w0_fit Q_fit phi_fit w_vec) = Some Hs"
    and "np_std (map cmod resp_vec) = Some s1"
    and "np_std (map cmod (broadcast_sub resp_vec Hs)) = Some s2" "s2 \<noteq> 0"
  shows "unit_function resp_vec (Some w_vec) num_points =
           (if s1 / s2 < 12 / 10 \<or> w0_fit < Min (set w_vec) \<or> Max (set w_vec) < w0_fit
            then sho_fast_guess (FloatArray w_vec) (ComplexArray resp_vec) 200
            else Inr (Finite (FloatArray [A_fit, w0_fit, Q_fit, phi_fit])))
       \<and> (\<forall>A f Q phi. unit_function resp_vec (Some w_vec) num_points
                           = Inr (Finite (FloatArray [A, f, Q, phi]))
              \<longrightarrow> f = w0_fit \<and> Min (set w_vec) \<le> f \<and> f \<le> Max (set w_vec))"
proof -
  let ?v = "s1 / s2 < 12 / 10 \<or> w0_fit < Min (set w_vec) \<or> Max (set w_vec) < w0_fit"
  have run: "unit_function resp_vec (Some w_vec) num_points =
           (if ?v then sho_fast_guess (FloatArray w_vec) (ComplexArray resp_vec) 200
            else Inr (Finite (FloatArray [A_fit, w0_fit, Q_fit, phi_fit])))"
    using assms by (rule weighted_run)
  have "f = w0_fit \<and> Min (set w_vec) \<le> f \<and> f \<le> Max (set w_vec)"
    if r: "unit_function resp_vec (Some w_vec) num_points = Inr (Finite (FloatArray [A, f, Q, phi]))"
    for A f Q phi
  proof (cases ?v)
    case True
    with run r have "sho_fast_guess (FloatArray w_vec) (ComplexArray resp_vec) 200
                       = Inr (Finite (FloatArray [A, f, Q, phi]))"
      by simp
    then show ?thesis using swapped_fallback_not_float by blast
  next
    case False
    with run r have "f = w0_fit" by simp
    with False show ?thesis by simp
  qed
  with run show ?thesis by blast
qed

theorem weighted_fit_plausibility_witness:
  "unit_function [Complex (- 32) 24, Complex (- 25) 0, Complex (- 15) (- 8)] (Some [1, 2, 3]) 2
     = Inr (Finite (FloatArray [50, 2, - (1 / 2), - (pi / 2)]))
   \<and> Min (set [1, 2, 3 :: real]) \<le> 2 \<and> 2 \<le> Max (set [1, 2, 3 :: real])"
proof -
  have range: "\<not> sqrt 4 < Min (set [1, 2, 3 :: real])" "\<not> Max (set [1, 2, 3 :: real]) < sqrt 4"
    by (simp_all add: sqrt_4)
  have nz: "sqrt (1682 / 1521) \<noteq> (0::real)" by simp
  from weighted_fit_plausibility [OF ex2_loop _ weighted_coeffs_single fit_parms_Some
      ex2_H_all ex2_s1 ex2_s2_resid nz]
  have "unit_function [Complex (- 32) 24, Complex (- 25) 0, Complex (- 15) (- 8)] (Some [1, 2, 3]) 2
          = Inr (Finite (FloatArray [cmod (Complex 0 200) / 4, sqrt 4, - sqrt 4 / 4,
                                     arctan2 (- 200) (- 0)]))"
    using ex2_ratio range by simp
  then show ?thesis unfolding ex2_parms by simp
qed

text \<open>
  Claim C10. The weighted fit returns \<^verbatim>\<open>Q_fit = -sqrt(d_w) / c_w\<close> with no test of its
  sign: on the samples above, where \<open>c_w = 4\<close>, the plausibility test passes and the
  returned quality factor is \<open>-1/2\<close>.
\<close>

theorem negative_quality_factor:
  "unit_function [Complex (- 32) 24, Complex (- 25) 0, Complex (- 15) (- 8)] (Some [1, 2, 3]) 2
     = Inr (Finite (FloatArray [50, 2, - (1 / 2), - (pi / 2)]))"
proof -
  have range: "\<not> sqrt 4 < Min (set [1, 2, 3 :: real])" "\<not> Max (set [1, 2, 3 :: real]) < sqrt 4"
    by (simp_all add: sqrt_4)
  have nz: "sqrt (1682 / 1521) \<noteq> (0::real)" by simp
  from weighted_run [OF ex2_loop _ weighted_coeffs_single fit_parms_Some
      ex2_H_all ex2_s1 ex2_s2_resid nz]
  have "unit_function [Complex (- 32) 24, Complex (- 25) 0, Complex (- 15) (- 8)] (Some [1, 2, 3]) 2
          = Inr (Finite (FloatArray [cmod (Complex 0 200) / 4, sqrt 4, - sqrt 4 / 4,
                                     arctan2 (- 200) (- 0)]))"
    using ex2_ratio range by simp
  then show ?thesis unfolding ex2_parms .
qed

subsection \<open>The pairs the loop considers\<close>

lemma pair_candidate_accepts:
  assumes "pair_candidate resp_vec w_vec ii (c1, c2) = Inr (Some (abcd, ev))"
  shows "0 < denom_of (w_vec ! (ii ! c1)) (w_vec ! (ii ! c2))
               (Re (resp_vec ! (ii ! c1))) (Re (resp_vec ! (ii ! c2)))
               (Im (resp_vec ! (ii ! c1))) (Im (resp_vec ! (ii ! c2)))
       \<and> 0 < coeff_d (w_vec ! (ii ! c1)) (w_vec ! (ii ! c2))
               (Re (resp_vec ! (ii ! c1))) (Re (resp_vec ! (ii ! c2)))
               (Im (resp_vec ! (ii ! c1))) (Im (resp_vec ! (ii ! c2)))"
  using assms unfolding pair_candidate_def
  by (auto simp add: getitem_def bind_err_def Let_def split: if_splits sum.splits)

lemma magnitudes_sorted:
  "sorted (map (\<lambda>i. cmod (resp_vec ! i)) (argsort (map cmod resp_vec)))"
proof -
  have "map (\<lambda>i. cmod (resp_vec ! i)) (argsort (map cmod resp_vec))
          = map (\<lambda>i. map cmod resp_vec ! i) (argsort (map cmod resp_vec))"
    by (rule map_cong [OF refl]) (simp add: argsort_set)
  then show ?thesis by (simp only: argsort_sorted)
qed

text \<open>
  Claim C7. The loop visits \<open>pair_indices num_points\<close>: each pair \<open>c1 < c2 < num_points\<close>
  of positions once, \<open>num_points * (num_points - 1) / 2\<close> pairs in all, the positions
  taken in the index vector \<open>ii\<close> that holds every sample index, ordered by descending
  magnitude. A pair adds a candidate only if its \<open>denom\<close> and its \<open>d\<close> are positive.
  On two vectors of equal length, at least \<^verbatim>\<open>num_points\<close>, the loop raises nothing and
  its candidate set holds exactly the candidates of the pairs it visited. With
  \<^verbatim>\<open>num_points = 2\<close> there is the one pair \<open>(0, 1)\<close>, and on two vectors of equal
  length, at least 2, the call raises nothing.
\<close>

theorem candidate_pairs:
  "(0 \<le> num_points \<longrightarrow>
      int (length (pair_indices (nat num_points))) = num_points * (num_points - 1) div 2)
   \<and> distinct (pair_indices (nat num_points))
   \<and> set (pair_indices (nat num_points)) = {(c1, c2). c1 < c2 \<and> c2 < nat num_points}
   \<and> set (rev (argsort (map cmod resp_vec))) = {0..<length resp_vec}
   \<and> sorted (rev (map (\<lambda>i. cmod (resp_vec ! i)) (rev (argsort (map cmod resp_vec)))))
   \<and> (\<forall>c1 c2 abcd ev.
         pair_candidate resp_vec w_vec ii (c1, c2) = Inr (Some (abcd, ev)) \<longrightarrow>
           0 < denom_of (w_vec ! (ii ! c1)) (w_vec ! (ii ! c2))
                 (Re (resp_vec ! (ii ! c1))) (Re (resp_vec ! (ii ! c2)))
                 (Im (resp_vec ! (ii ! c1))) (Im (resp_vec ! (ii ! c2)))
         \<and> 0 < coeff_d (w_vec ! (ii ! c1)) (w_vec ! (ii ! c2))
                 (Re (resp_vec ! (ii ! c1))) (Re (resp_vec ! (ii ! c2)))
                 (Im (resp_vec ! (ii ! c1))) (Im (resp_vec ! (ii ! c2))))
   \<and> (length resp_vec = length w_vec \<and> num_points \<le> int (length resp_vec) \<longrightarrow>
        (\<exists>cands. candidates_loop resp_vec w_vec (rev (argsort (map cmod resp_vec)))
                    (pair_indices (nat num_points)) [] = Inr cands
                 \<and> set cands = {cd. \<exists>p \<in> set (pair_indices (nat num_points)).
                        pair_candidate resp_vec w_vec (rev (argsort (map cmod resp_vec))) p
                          = Inr (Some cd)}))
   \<and> pair_indices (nat 2) = [(0, 1)]
   \<and> (length resp_vec = length w_vec \<and> 2 \<le> length resp_vec \<longrightarrow>
        (\<exists>r. unit_function resp_vec (Some w_vec) 2 = Inr r))"
proof -
  have len: "int (length (pair_indices (nat num_points))) = num_points * (num_points - 1) div 2"
    if "0 \<le> num_points"
  proof -
    have "int (nat num_points * (nat num_points - 1) div 2)
            = int (nat num_points * (nat num_points - 1)) div 2"
      by (simp add: zdiv_int)
    also have "int (nat num_points * (nat num_points - 1)) = num_points * (num_points - 1)"
      using that by (cases "num_points = 0") (simp_all add: nat_diff_distrib' of_nat_diff)
    finally show ?thesis by (simp add: length_pair_indices)
  qed
  have srt: "sorted (rev (map (\<lambda>i. cmod (resp_vec ! i)) (rev (argsort (map cmod resp_vec)))))"
    using magnitudes_sorted [of resp_vec] by (simp add: rev_map)
  have two: "\<exists>r. unit_function resp_vec (Some w_vec) 2 = Inr r"
    if "length resp_vec = length w_vec \<and> 2 \<le> length resp_vec"
    using that by (intro unit_function_Inr) auto
  have loop: "\<exists>cands. candidates_loop resp_vec w_vec (rev (argsort (map cmod resp_vec)))
                    (pair_indices (nat num_points)) [] = Inr cands
                 \<and> set cands = {cd. \<exists>p \<in> set (pair_indices (nat num_points)).
                        pair_candidate resp_vec w_vec (rev (argsort (map cmod resp_vec))) p
                          = Inr (Some cd)}"
    if "length resp_vec = length w_vec \<and> num_points \<le> int (length resp_vec)"
  proof -
    from that obtain cs where
      cs: "candidates_loop resp_vec w_vec (rev (argsort (map cmod resp_vec)))
             (pair_indices (nat num_points)) [] = Inr cs"
      using candidates_loop_well_formed by blast
    from candidates_loop_set [OF cs] cs show ?thesis by simp
  qed
  show ?thesis
    using len srt two loop pair_candidate_accepts [of resp_vec w_vec ii]
    by (simp add: pair_indices_distinct pair_indices_set argsort_set pair_indices_2)
qed

theorem candidate_pairs_witness:
  "int (length (pair_indices (nat 2))) = 2 * (2 - 1) div 2
   \<and> pair_candidate [Complex (- 32) 24, Complex (- 25) 0, Complex (- 15) (- 8)] [1, 2, 3] [0, 1, 2]
        (0, Suc 0) = Inr (Some ((0, 200, 4, 4), Some (841 / 169)))
   \<and> 0 < denom_of 1 2 (- 32) (- 25) 24 0 \<and> 0 < coeff_d 1 2 (- 32) (- 25) 24 0
   \<and> (\<exists>cands.
         candidates_loop [Complex (- 32) 24, Complex (- 25) 0, Complex (- 15) (- 8)] [1, 2, 3]
           (rev (argsort (map cmod [Complex (- 32) 24, Complex (- 25) 0, Complex (- 15) (- 8)])))
           (pair_indices (nat 2)) [] = Inr cands
         \<and> set cands = {cd. \<exists>p \<in> set (pair_indices (nat 2)).
               pair_candidate [Complex (- 32) 24, Complex (- 25) 0, Complex (- 15) (- 8)] [1, 2, 3]
                 (rev (argsort (map cmod [Complex (- 32) 24, Complex (- 25) 0, Complex (- 15) (- 8)])))
                 p = Inr (Some cd)})
   \<and> (\<exists>r. unit_function [Complex (- 32) 24, Complex (- 25) 0, Complex (- 15) (- 8)]
             (Some [1, 2, 3]) 2 = Inr r)"
proof -
  let ?resp = "[Complex (- 32) 24, Complex (- 25) 0, Complex (- 15) (- 8)]"
  let ?w = "[1, 2, 3 :: real]"
  let ?ii = "[0, 1, 2 :: nat]"
  note t = candidate_pairs [of 2 ?resp ?w ?ii]
  from t have "0 \<le> (2::int) \<longrightarrow> int (length (pair_indices (nat 2))) = 2 * (2 - 1) div 2"
    by (rule conjunct1)
  then have a: "int (length (pair_indices (nat 2))) = 2 * (2 - 1) div 2"
    by simp
  from t have "\<forall>c1 c2 abcd ev.
         pair_candidate ?resp ?w ?ii (c1, c2) = Inr (Some (abcd, ev)) \<longrightarrow>
           0 < denom_of (?w ! (?ii ! c1)) (?w ! (?ii ! c2))
                 (Re (?resp ! (?ii ! c1))) (Re (?resp ! (?ii ! c2)))
                 (Im (?resp ! (?ii ! c1))) (Im (?resp ! (?ii ! c2)))
         \<and> 0 < coeff_d (?w ! (?ii ! c1)) (?w ! (?ii ! c2))
                 (Re (?resp ! (?ii ! c1))) (Re (?resp ! (?ii ! c2)))
                 (Im (?resp ! (?ii ! c1))) (Im (?resp ! (?ii ! c2)))"
    by blast
  with ex2_pair have
    "0 < denom_of (?w ! (?ii ! 0)) (?w ! (?ii ! Suc 0))
                 (Re (?resp ! (?ii ! 0))) (Re (?resp ! (?ii ! Suc 0)))
                 (Im (?resp ! (?ii ! 0))) (Im (?resp ! (?ii ! Suc 0)))
     \<and> 0 < coeff_d (?w ! (?ii ! 0)) (?w ! (?ii ! Suc 0))
                 (Re (?resp ! (?ii ! 0))) (Re (?resp ! (?ii ! Suc 0)))
                 (Im (?resp ! (?ii ! 0))) (Im (?resp ! (?ii ! Suc 0)))"
    by blast
  then have b: "0 < denom_of 1 2 (- 32) (- 25) 24 0 \<and> 0 < coeff_d 1 2 (- 32) (- 25) 24 0"
    by simp
  from t have "length ?resp = length ?w \<and> 2 \<le> length ?resp \<longrightarrow>
        (\<exists>r. unit_function ?resp (Some ?w) 2 = Inr r)"
    by blast
  then have c: "\<exists>r. unit_function ?resp (Some ?w) 2 = Inr r"
    by simp
  from t have "length ?resp = length ?w \<and> 2 \<le> int (length ?resp) \<longrightarrow>
        (\<exists>cands. candidates_loop ?resp ?w (rev (argsort (map cmod ?resp)))
                    (pair_indices (nat 2)) [] = Inr cands
                 \<and> set cands = {cd. \<exists>p \<in> set (pair_indices (nat 2)).
                        pair_candidate ?resp ?w (rev (argsort (map cmod ?resp))) p
                          = Inr (Some cd)})"
    by blast
  then have d: "\<exists>cands. candidates_loop ?resp ?w (rev (argsort (map cmod ?resp)))
                    (pair_indices (nat 2)) [] = Inr cands
                 \<and> set cands = {cd. \<exists>p \<in> set (pair_indices (nat 2)).
                        pair_candidate ?resp ?w (rev (argsort (map cmod ?resp))) p
                          = Inr (Some cd)}"
    by simp
  from a b c d ex2_pair show ?thesis by blast
qed

subsection \<open>Noise-free responses\<close>

lemma arctan2_eq_Arg:
  assumes "Complex x y \<noteq> 0"
  shows "arctan2 y x = Arg (Complex x y)"
proof -
  have n: "cmod (Complex x y) \<noteq> 0" using assms by simp
  have "cis (arctan2 y x) * complex_of_real (cmod (Complex x y)) = Complex x y"
    by (rule cis_arctan2)
  then have "cis (arctan2 y x) = Complex x y / complex_of_real (cmod (Complex x y))"
    using n by (simp add: field_simps)
  then have "sgn (Complex x y) = cis (arctan2 y x)"
    by (simp add: sgn_eq)
  then show ?thesis
    using arctan2_bounds [of y x] by (intro cis_Arg_unique [symmetric]) simp_all
qed

lemma arctan2_polar:
  assumes "0 < r" "- pi < phi" "phi \<le> pi"
  shows "arctan2 (r * sin phi) (r * cos phi) = phi"
proof -
  let ?z = "Complex (r * cos phi) (r * sin phi)"
  have z: "?z = complex_of_real r * cis phi"
    by (simp add: complex_eq_iff)
  then have nz: "?z \<noteq> 0" using assms(1) by simp
  have "sgn ?z = cis phi"
    unfolding z using assms(1) by (simp add: sgn_mult sgn_of_real)
  then have "Arg ?z = phi" using assms(2,3) by (rule cis_Arg_unique)
  with arctan2_eq_Arg [OF nz] show ?thesis by simp
qed

text \<open>Cramer's rule for the linear system of one pair.\<close>

lemma pair_system_solution:
  fixes a b c d w1 w2 X1 X2 Y1 Y2 :: real
  assumes e1: "X1 * (d - w1\<^sup>2) + Y1 * (c * w1) = a" and e2: "Y1 * (d - w1\<^sup>2) - X1 * (c * w1) = b"
    and e3: "X2 * (d - w2\<^sup>2) + Y2 * (c * w2) = a" and e4: "Y2 * (d - w2\<^sup>2) - X2 * (c * w2) = b"
    and nz: "denom_of w1 w2 X1 X2 Y1 Y2 \<noteq> 0"
  shows "coeff_a w1 w2 X1 X2 Y1 Y2 = a" "coeff_b w1 w2 X1 X2 Y1 Y2 = b"
    "coeff_c w1 w2 X1 X2 Y1 Y2 = c" "coeff_d w1 w2 X1 X2 Y1 Y2 = d"
proof -
  let ?D = "denom_of w1 w2 X1 X2 Y1 Y2"
  have A: "d * (X1 - X2) + c * (Y1 * w1 - Y2 * w2) = X1 * w1\<^sup>2 - X2 * w2\<^sup>2"
    using e1 e3 by (simp add: algebra_simps)
  have B: "d * (Y1 - Y2) - c * (X1 * w1 - X2 * w2) = Y1 * w1\<^sup>2 - Y2 * w2\<^sup>2"
    using e2 e4 by (simp add: algebra_simps)
  have "(Y1 - Y2) * (d * (X1 - X2) + c * (Y1 * w1 - Y2 * w2))
          - (X1 - X2) * (d * (Y1 - Y2) - c * (X1 * w1 - X2 * w2))
        = (Y1 - Y2) * (X1 * w1\<^sup>2 - X2 * w2\<^sup>2) - (X1 - X2) * (Y1 * w1\<^sup>2 - Y2 * w2\<^sup>2)"
    by (simp only: A B)
  then have c: "(w1\<^sup>2 - w2\<^sup>2) * (X2 * Y1 - X1 * Y2) = c * ?D"
    by (simp add: denom_of_def algebra_simps power2_eq_square)
  have "(X1 * w1 - X2 * w2) * (d * (X1 - X2) + c * (Y1 * w1 - Y2 * w2))
          + (Y1 * w1 - Y2 * w2) * (d * (Y1 - Y2) - c * (X1 * w1 - X2 * w2))
        = (X1 * w1 - X2 * w2) * (X1 * w1\<^sup>2 - X2 * w2\<^sup>2)
          + (Y1 * w1 - Y2 * w2) * (Y1 * w1\<^sup>2 - Y2 * w2\<^sup>2)"
    by (simp only: A B)
  then have d: "w1 ^ 3 * (X1\<^sup>2 + Y1\<^sup>2) - w1\<^sup>2 * w2 * (X1 * X2 + Y1 * Y2)
            - w1 * w2\<^sup>2 * (X1 * X2 + Y1 * Y2) + w2 ^ 3 * (X2\<^sup>2 + Y2\<^sup>2) = d * ?D"
    by (simp add: denom_of_def algebra_simps power2_eq_square power3_eq_cube)
  have a: "(w1\<^sup>2 - w2\<^sup>2) * (w1 * X2 * (X1\<^sup>2 + Y1\<^sup>2) - w2 * X1 * (X2\<^sup>2 + Y2\<^sup>2)) = a * ?D"
  proof -
    have "a * ?D = (X1 * (d - w1\<^sup>2) + Y1 * (c * w1)) * ?D" by (simp only: e1)
    also have "\<dots> = X1 * (d * ?D) - X1 * w1\<^sup>2 * ?D + Y1 * w1 * (c * ?D)"
      by (simp add: algebra_simps)
    also have "\<dots> = (w1\<^sup>2 - w2\<^sup>2) * (w1 * X2 * (X1\<^sup>2 + Y1\<^sup>2) - w2 * X1 * (X2\<^sup>2 + Y2\<^sup>2))"
      unfolding c [symmetric] d [symmetric]
      by (simp add: denom_of_def algebra_simps power2_eq_square power3_eq_cube)
    finally show ?thesis by simp
  qed
  have b: "(w1\<^sup>2 - w2\<^sup>2) * (w1 * Y2 * (X1\<^sup>2 + Y1\<^sup>2) - w2 * Y1 * (X2\<^sup>2 + Y2\<^sup>2)) = b * ?D"
  proof -
    have "b * ?D = (Y1 * (d - w1\<^sup>2) - X1 * (c * w1)) * ?D" by (simp only: e2)
    also have "\<dots> = Y1 * (d * ?D) - Y1 * w1\<^sup>2 * ?D - X1 * w1 * (c * ?D)"
      by (simp add: algebra_simps)
    also have "\<dots> = (w1\<^sup>2 - w2\<^sup>2) * (w1 * Y2 * (X1\<^sup>2 + Y1\<^sup>2) - w2 * Y1 * (X2\<^sup>2 + Y2\<^sup>2))"
      unfolding c [symmetric] d [symmetric]
      by (simp add: denom_of_def algebra_simps power2_eq_square power3_eq_cube)
    finally show ?thesis by simp
  qed
  show "coeff_a w1 w2 X1 X2 Y1 Y2 = a" using a nz by (simp add: coeff_a_def)
  show "coeff_b w1 w2 X1 X2 Y1 Y2 = b" using b nz by (simp add: coeff_b_def)
  show "coeff_c w1 w2 X1 X2 Y1 Y2 = c" using c nz by (simp add: coeff_c_def)
  show "coeff_d w1 w2 X1 X2 Y1 Y2 = d" using d nz by (simp add: coeff_d_def)
qed

text \<open>The coefficients \<open>(a, b, c, d)\<close> of a parameter tuple.\<close>

lemma sho_function_coeffs:
  assumes "0 < f0" "Q \<noteq> 0"
  shows "sho_function [A, f0, Q, phi] w_vec =
     Inr (map (\<lambda>f. Some (Complex (- (A * f0\<^sup>2 * cos phi)) (- (A * f0\<^sup>2 * sin phi))
                            / Complex (f0\<^sup>2 - f\<^sup>2) (- (- (f0 / Q) * f)))) w_vec)"
proof -
  have c: "- (f0 / Q) \<noteq> 0" and d: "0 < f0\<^sup>2" using assms by simp_all
  have den: "(complex_of_real f)\<^sup>2 - \<i> * complex_of_real f * complex_of_real f0 / complex_of_real Q
               - (complex_of_real f0)\<^sup>2 = - Complex (f0\<^sup>2 - f\<^sup>2) (- (- (f0 / Q) * f))" for f
    by (simp add: complex_eq_iff power2_eq_square)
  have num: "complex_of_real A * exp (\<i> * complex_of_real phi) * (complex_of_real f0)\<^sup>2
               = - Complex (- (A * f0\<^sup>2 * cos phi)) (- (A * f0\<^sup>2 * sin phi))"
    by (simp add: complex_eq_iff power2_eq_square flip: cis_conv_exp)
  have nz: "Complex (f0\<^sup>2 - f\<^sup>2) (- (- (f0 / Q) * f)) \<noteq> 0" for f
    using den_nonzero [OF d c, of f] by simp
  show ?thesis
    unfolding sho_function_eval den num
    using assms(2) nz by simp
qed

lemma denom_of_complex:
  "denom_of w1 w2 (Re H1) (Re H2) (Im H1) (Im H2)
     = Re ((complex_of_real w1 * H1 - complex_of_real w2 * H2) * cnj (H1 - H2))"
  by (simp add: denom_of_def algebra_simps power2_eq_square)

lemma denom_of_exact:
  fixes N :: complex
  assumes "0 < d" "c \<noteq> 0" "N \<noteq> 0" "0 \<le> w1" "0 \<le> w2" "w1 \<noteq> w2"
  defines "H1 \<equiv> N / Complex (d - w1\<^sup>2) (- (c * w1))"
    and "H2 \<equiv> N / Complex (d - w2\<^sup>2) (- (c * w2))"
  shows "0 < denom_of w1 w2 (Re H1) (Re H2) (Im H1) (Im H2)"
proof -
  let ?D1 = "Complex (d - w1\<^sup>2) (- (c * w1))" and ?D2 = "Complex (d - w2\<^sup>2) (- (c * w2))"
  have nz: "?D1 \<noteq> 0" "?D2 \<noteq> 0" using den_nonzero [OF assms(1,2)] by simp_all
  define K where "K = N / (?D1 * ?D2)"
  have K: "K \<noteq> 0" using nz assms(3) by (simp add: K_def)
  have H: "H1 = K * ?D2" "H2 = K * ?D1"
    using nz by (simp_all add: H1_def H2_def K_def)
  define r where "r = (w1 - w2) * (d + w1 * w2)"
  have "complex_of_real w1 * ?D2 - complex_of_real w2 * ?D1 = complex_of_real r"
    by (simp add: complex_eq_iff r_def algebra_simps power2_eq_square)
  then have s: "complex_of_real w1 * H1 - complex_of_real w2 * H2 = K * complex_of_real r"
    unfolding H by (simp add: algebra_simps)
  have t: "H1 - H2 = K * (?D2 - ?D1)"
    unfolding H by (simp add: algebra_simps)
  have "(complex_of_real w1 * H1 - complex_of_real w2 * H2) * cnj (H1 - H2)
          = (K * cnj K) * (complex_of_real r * cnj (?D2 - ?D1))"
    unfolding s t by simp
  also have "K * cnj K = complex_of_real ((cmod K)\<^sup>2)"
    by (rule complex_norm_square [symmetric])
  finally have "denom_of w1 w2 (Re H1) (Re H2) (Im H1) (Im H2)
                  = (cmod K)\<^sup>2 * (r * (w1\<^sup>2 - w2\<^sup>2))"
    unfolding denom_of_complex by simp
  also have "r * (w1\<^sup>2 - w2\<^sup>2) = (w1 - w2)\<^sup>2 * ((w1 + w2) * (d + w1 * w2))"
    by (simp add: r_def algebra_simps power2_eq_square)
  finally have e: "denom_of w1 w2 (Re H1) (Re H2) (Im H1) (Im H2)
                  = (cmod K)\<^sup>2 * ((w1 - w2)\<^sup>2 * ((w1 + w2) * (d + w1 * w2)))" .
  have "0 < w1 + w2" using assms(4,5,6) by linarith
  moreover have "0 < d + w1 * w2" using assms(1,4,5) by (simp add: add_pos_nonneg)
  moreover have "0 < (w1 - w2)\<^sup>2" using assms(6) by simp
  moreover have "0 < (cmod K)\<^sup>2" using K by simp
  ultimately show ?thesis unfolding e by (intro mult_pos_pos)
qed

lemma exact_pair:
  assumes d: "0 < d" and c: "c \<noteq> 0" and N: "Complex a b \<noteq> 0"
    and resp: "resp_vec = map (\<lambda>w. Complex a b / Complex (d - w\<^sup>2) (- (c * w))) w_vec"
    and idx: "c1 < length ii" "c2 < length ii" "ii ! c1 < length w_vec" "ii ! c2 < length w_vec"
    and w: "0 \<le> w_vec ! (ii ! c1)" "0 \<le> w_vec ! (ii ! c2)" "w_vec ! (ii ! c1) \<noteq> w_vec ! (ii ! c2)"
  shows "pair_candidate resp_vec w_vec ii (c1, c2) = Inr (Some ((a, b, c, d), Some 0))"
proof -
  define w1 where "w1 = w_vec ! (ii ! c1)"
  define w2 where "w2 = w_vec ! (ii ! c2)"
  define H1 where "H1 = Complex a b / Complex (d - w1\<^sup>2) (- (c * w1))"
  define H2 where "H2 = Complex a b / Complex (d - w2\<^sup>2) (- (c * w2))"
  have len: "length resp_vec = length w_vec" by (simp add: resp)
  have r: "resp_vec ! (ii ! c1) = H1" "resp_vec ! (ii ! c2) = H2"
    using idx by (simp_all add: resp H1_def H2_def w1_def w2_def)
  have pos: "0 < denom_of w1 w2 (Re H1) (Re H2) (Im H1) (Im H2)"
    unfolding H1_def H2_def using d c N w unfolding w1_def [symmetric] w2_def [symmetric]
    by (rule denom_of_exact)
  have "H1 * Complex (d - w1\<^sup>2) (- (c * w1)) = Complex a b"
    using den_nonzero [OF d c, of w1] by (simp add: H1_def)
  then have e1: "Re H1 * (d - w1\<^sup>2) + Im H1 * (c * w1) = a"
    and e2: "Im H1 * (d - w1\<^sup>2) - Re H1 * (c * w1) = b"
    by (simp_all add: complex_eq_iff algebra_simps)
  have "H2 * Complex (d - w2\<^sup>2) (- (c * w2)) = Complex a b"
    using den_nonzero [OF d c, of w2] by (simp add: H2_def)
  then have e3: "Re H2 * (d - w2\<^sup>2) + Im H2 * (c * w2) = a"
    and e4: "Im H2 * (d - w2\<^sup>2) - Re H2 * (c * w2) = b"
    by (simp_all add: complex_eq_iff algebra_simps)
  have nz: "denom_of w1 w2 (Re H1) (Re H2) (Im H1) (Im H2) \<noteq> 0" using pos by simp
  note sol = pair_system_solution [OF e1 e2 e3 e4 nz]
  let ?h = "\<lambda>w. Complex a b / Complex (d - w\<^sup>2) (- (c * w))"
  have zr: "sum_list (map2 (\<lambda>w r. (Re (?h w) - Re r)\<^sup>2) ws (map ?h ws)) = 0" for ws
    by (induction ws) simp_all
  have zi: "sum_list (map2 (\<lambda>w r. (Im (?h w) - Im r)\<^sup>2) ws (map ?h ws)) = 0" for ws
    by (induction ws) simp_all
  have "fit_error (a, b, c, d) w_vec (map ?h w_vec)
          = Inr (Some (sum_list (map2 (\<lambda>w r. (Re (?h w) - Re r)\<^sup>2) w_vec (map ?h w_vec))
                     + sum_list (map2 (\<lambda>w r. (Im (?h w) - Im r)\<^sup>2) w_vec (map ?h w_vec))))"
    by (rule fit_error_closed [OF d c]) simp
  then have err: "fit_error (a, b, c, d) w_vec resp_vec = Inr (Some 0)"
    unfolding zr zi resp by simp
  show ?thesis
    unfolding pair_candidate_in_range [OF idx(1,2) idx(3,4) idx(3,4) [folded len]] Let_def r
      w1_def [symmetric] w2_def [symmetric] sol
    using pos d err by (simp add: bind_err_def)
qed

lemma fit_parms_of_tuple:
  assumes "0 < A" "0 < f0" "Q \<noteq> 0" "- pi < phi" "phi \<le> pi"
  shows "fit_parms (- (A * f0\<^sup>2 * cos phi)) (- (A * f0\<^sup>2 * sin phi)) (- (f0 / Q)) (f0\<^sup>2)
           = Some (A, f0, Q, phi)"
proof -
  have r: "0 < A * f0\<^sup>2" using assms(1,2) by simp
  have "(A * f0\<^sup>2 * cos phi)\<^sup>2 + (A * f0\<^sup>2 * sin phi)\<^sup>2 = (A * f0\<^sup>2)\<^sup>2 * ((cos phi)\<^sup>2 + (sin phi)\<^sup>2)"
    by (simp only: power_mult_distrib distrib_left)
  also have "\<dots> = (A * f0\<^sup>2)\<^sup>2"
    by (simp only: sin_cos_squared_add2 mult_1_right)
  finally have "(- (A * f0\<^sup>2 * cos phi))\<^sup>2 + (- (A * f0\<^sup>2 * sin phi))\<^sup>2 = (A * f0\<^sup>2)\<^sup>2"
    by simp
  then have m: "cmod (Complex (- (A * f0\<^sup>2 * cos phi)) (- (A * f0\<^sup>2 * sin phi))) = A * f0\<^sup>2"
    using r by (intro cmod_Complex_eq) (simp_all only: less_imp_le)
  have p: "arctan2 (- (- (A * f0\<^sup>2 * sin phi))) (- (- (A * f0\<^sup>2 * cos phi))) = phi"
    using arctan2_polar [OF r assms(4,5)] by simp
  have "0 < f0\<^sup>2" "- (f0 / Q) \<noteq> 0" using assms(2,3) by simp_all
  from fit_parms_Some [OF this]
  have "fit_parms (- (A * f0\<^sup>2 * cos phi)) (- (A * f0\<^sup>2 * sin phi)) (- (f0 / Q)) (f0\<^sup>2)
          = Some (A * f0\<^sup>2 / f0\<^sup>2, sqrt (f0\<^sup>2), - sqrt (f0\<^sup>2) / - (f0 / Q), phi)"
    by (simp only: m p)
  also have "A * f0\<^sup>2 / f0\<^sup>2 = A" using assms(2) by simp
  also have "sqrt (f0\<^sup>2) = f0" using assms(2) by simp
  also have "- f0 / - (f0 / Q) = Q" using assms(2,3) by simp
  finally show ?thesis .
qed

lemma noise_free_pair:
  assumes "0 < A" "0 < f0" "Q \<noteq> 0" "- pi < phi" "phi \<le> pi"
    and "sho_function [A, f0, Q, phi] w_vec = Inr (map Some resp_vec)"
    and "c1 < length ii" "c2 < length ii" "ii ! c1 < length w_vec" "ii ! c2 < length w_vec"
    and "0 \<le> w_vec ! (ii ! c1)" "0 \<le> w_vec ! (ii ! c2)" "w_vec ! (ii ! c1) \<noteq> w_vec ! (ii ! c2)"
  shows "\<exists>a b c d. pair_candidate resp_vec w_vec ii (c1, c2) = Inr (Some ((a, b, c, d), Some 0))
           \<and> fit_parms a b c d = Some (A, f0, Q, phi)"
proof -
  let ?a = "- (A * f0\<^sup>2 * cos phi)" and ?b = "- (A * f0\<^sup>2 * sin phi)"
  let ?c = "- (f0 / Q)" and ?d = "f0\<^sup>2"
  have d: "0 < ?d" and c: "?c \<noteq> 0" using assms(2,3) by simp_all
  have "cmod (Complex ?a ?b) / ?d = A"
    using fit_parms_of_tuple [OF assms(1-5)] fit_parms_Some [of ?d ?c ?a ?b] d c by simp
  then have N: "Complex ?a ?b \<noteq> 0" using assms(1) by auto
  from assms(6) have "map Some resp_vec
      = map (\<lambda>f. Some (Complex ?a ?b / Complex (?d - f\<^sup>2) (- (?c * f)))) w_vec"
    unfolding sho_function_coeffs [OF assms(2,3)] by simp
  then have "map Some resp_vec
      = map Some (map (\<lambda>f. Complex ?a ?b / Complex (?d - f\<^sup>2) (- (?c * f))) w_vec)"
    by (simp add: comp_def)
  then have resp: "resp_vec = map (\<lambda>f. Complex ?a ?b / Complex (?d - f\<^sup>2) (- (?c * f))) w_vec"
    by (simp only: inj_map_eq_map [OF inj_Some])
  from exact_pair [OF d c N resp assms(7-13)] fit_parms_of_tuple [OF assms(1-5)]
  show ?thesis by blast
qed

lemma ex6_response: "sho_function [1, 2, 2, 0] [2] = Inr [Some (Complex 0 2)]"
  by (subst sho_function_coeffs) (simp_all add: complex_eq_iff Re_divide Im_divide power2_eq_square)

text \<open>
  Claim C8, as stated, is false: it speaks of every frequency vector. On a vector of one
  frequency the response of the parameters \<open>(1, 2, 2, 0)\<close> is the single sample \<open>2i\<close>,
  and for every \<^verbatim>\<open>num_points\<close> from 2 on the call raises \<^verbatim>\<open>IndexError\<close>: nothing is
  recovered.
\<close>

theorem single_sample_not_recovered:
  "sho_function [1, 2, 2, 0] [2] = Inr [Some (Complex 0 2)]
   \<and> \<not> (\<exists>n. 2 \<le> n \<and> (\<exists>r. unit_function [Complex 0 2] (Some [2]) n = Inr r))"
proof -
  have "unit_function [Complex 0 2] (Some [2]) n = Inl IndexError" if "2 \<le> n" for n
    using that by (intro unit_function_IndexError) simp_all
  then show ?thesis using ex6_response by auto
qed

text \<open>
  Claim C8, amended. Let the response be \<open>sho_function\<close> of parameters \<open>(A, f0, Q, \<phi>)\<close>
  with \<open>A > 0\<close>, \<open>f0 > 0\<close>, \<open>Q \<noteq> 0\<close> and \<open>-\<pi> < \<phi> \<le> \<pi>\<close>, and take any two samples at
  different, non-negative frequencies. In exact arithmetic the loop body accepts the
  pair, its fit parameters are exactly \<open>(A, f0, Q, \<phi>)\<close>, and its error score is exactly
  0. (What the whole function then returns is the subject of C2: a returned estimate
  within a tolerance rests on the rounding of floating-point arithmetic, which this
  model does not have.)
\<close>

theorem noise_free_pair_recovers:
  assumes "0 < A" "0 < f0" "Q \<noteq> 0" "- pi < phi" "phi \<le> pi"
    and "sho_function [A, f0, Q, phi] w_vec = Inr (map Some resp_vec)"
    and "c1 < length ii" "c2 < length ii" "ii ! c1 < length w_vec" "ii ! c2 < length w_vec"
    and "0 \<le> w_vec ! (ii ! c1)" "0 \<le> w_vec ! (ii ! c2)" "w_vec ! (ii ! c1) \<noteq> w_vec ! (ii ! c2)"
  shows "\<exists>a b c d. pair_candidate resp_vec w_vec ii (c1, c2) = Inr (Some ((a, b, c, d), Some 0))
           \<and> fit_parms a b c d = Some (A, f0, Q, phi)"
  using assms by (rule noise_free_pair)

lemma ex7_response:
  "sho_function [1, 2, 2, 0] [1, 2] = Inr (map Some [Complex (- 6 / 5) (2 / 5), Complex 0 2])"
  by (subst sho_function_coeffs) (simp_all add: complex_eq_iff Re_divide Im_divide power2_eq_square)

theorem noise_free_pair_recovers_witness:
  "sho_function [1, 2, 2, 0] [1, 2] = Inr (map Some [Complex (- 6 / 5) (2 / 5), Complex 0 2])
   \<and> (\<exists>a b c d. pair_candidate [Complex (- 6 / 5) (2 / 5), Complex 0 2] [1, 2] [1, 0] (0, 1)
                   = Inr (Some ((a, b, c, d), Some 0))
                 \<and> fit_parms a b c d = Some (1, 2, 2, 0))"
proof -
  have "\<exists>a b c d. pair_candidate [Complex (- 6 / 5) (2 / 5), Complex 0 2] [1, 2] [1, 0] (0, 1)
                   = Inr (Some ((a, b, c, d), Some 0))
                 \<and> fit_parms a b c d = Some (1, 2, 2, 0)"
    by (rule noise_free_pair_recovers [OF _ _ _ _ _ ex7_response]) simp_all
  with ex7_response show ?thesis by simp
qed

end
